theory Spec2Isabelle
  imports Complex_Main "HOL-Library.Multiset" "HOL-Library.Log_Nat"
begin

section \<open>Data model (api-client.ts)\<close>

text \<open>
  The canonical records of \<^verbatim>\<open>api-client.ts\<close>. A field of TypeScript type
  \<^verbatim>\<open>string | null\<close> is a \<open>string option\<close> (\<open>None\<close> is \<^verbatim>\<open>null\<close>); a block
  height is an integer, of at most 53 bits so that it is the double that the code
  holds. Field names carry a prefix, since \<^verbatim>\<open>from\<close>, \<^verbatim>\<open>value\<close> and \<^verbatim>\<open>hash\<close>
  are reserved here.
\<close>

record Block =
  blk_hash :: string
  blk_number :: int
  blk_timestamp :: string
  blk_transaction_count :: int

record Transaction =
  tx_hash :: string
  tx_from :: string
  tx_to :: "string option"
  tx_value :: string
  tx_gas_price :: string
  tx_gas_used :: string
  tx_gas :: string
  tx_timestamp :: string

section \<open>The language's primitives\<close>

text \<open>
  A \<^verbatim>\<open>bigint\<close> is an \<open>int\<close>. A thrown value is either an instance of \<^verbatim>\<open>Error\<close>,
  given by its message, or any other value, given by what \<^verbatim>\<open>String(...)\<close> makes of it.
  The errors that the language itself throws are given by the names of their classes,
  their messages being those of the engine.
\<close>

datatype thrown = Error string | NonError string

abbreviation SyntaxError :: thrown where
  "SyntaxError \<equiv> Error ''SyntaxError''"

abbreviation RangeError :: thrown where
  "RangeError \<equiv> Error ''RangeError''"

text \<open>Characters are ASCII bytes; white space is TAB, LF, VT, FF, CR and SP.\<close>

definition isWhiteSpace :: "char \<Rightarrow> bool" where
  "isWhiteSpace c = (let n = (of_char c :: nat) in (9 \<le> n \<and> n \<le> 13) \<or> n = 32)"

definition trimStart :: "string \<Rightarrow> string" where
  "trimStart s = dropWhile isWhiteSpace s"

definition trim :: "string \<Rightarrow> string" where
  "trim s = rev (dropWhile isWhiteSpace (rev (dropWhile isWhiteSpace s)))"

text \<open>The value of a character as a digit of the given radix, if it is one.\<close>

definition digitValue :: "nat \<Rightarrow> char \<Rightarrow> nat option" where
  "digitValue radix c =
     (let n = (of_char c :: nat);
          v = (if 48 \<le> n \<and> n \<le> 57 then Some (n - 48)
               else if 97 \<le> n \<and> n \<le> 122 then Some (n - 87)
               else if 65 \<le> n \<and> n \<le> 90 then Some (n - 55)
               else None)
      in case v of None \<Rightarrow> None | Some d \<Rightarrow> (if d < radix then Some d else None))"

text \<open>A string read as digits of the radix, most significant first; \<open>None\<close> if
  some character is not such a digit.\<close>

fun digitsFrom :: "nat \<Rightarrow> nat \<Rightarrow> string \<Rightarrow> nat option" where
  "digitsFrom radix acc [] = Some acc"
| "digitsFrom radix acc (c # cs) =
     (case digitValue radix c of
        None \<Rightarrow> None
      | Some d \<Rightarrow> digitsFrom radix (acc * radix + d) cs)"

definition allDigits :: "nat \<Rightarrow> string \<Rightarrow> nat option" where
  "allDigits radix s = (if s = [] then None else digitsFrom radix 0 s)"

text \<open>
  \<^verbatim>\<open>BigInt(s)\<close> on a string (ECMAScript StringToBigInt): white space is trimmed, the
  empty string is 0, a decimal literal may carry a sign, a literal with prefix
  \<^verbatim>\<open>0x\<close>, \<^verbatim>\<open>0o\<close> or \<^verbatim>\<open>0b\<close> may not, and anything else throws a SyntaxError.
\<close>

definition StringToBigInt :: "string \<Rightarrow> int option" where
  "StringToBigInt s =
     (let t = trim s in
      if t = [] then Some 0
      else if take 2 t = ''0x'' \<or> take 2 t = ''0X'' then map_option int (allDigits 16 (drop 2 t))
      else if take 2 t = ''0o'' \<or> take 2 t = ''0O'' then map_option int (allDigits 8 (drop 2 t))
      else if take 2 t = ''0b'' \<or> take 2 t = ''0B'' then map_option int (allDigits 2 (drop 2 t))
      else if hd t = CHR ''-'' then map_option (\<lambda>n. - int n) (allDigits 10 (tl t))
      else if hd t = CHR ''+'' then map_option int (allDigits 10 (tl t))
      else map_option int (allDigits 10 t))"

definition BigInt :: "string \<Rightarrow> thrown + int" where
  "BigInt s = (case StringToBigInt s of None \<Rightarrow> Inl SyntaxError | Some n \<Rightarrow> Inr n)"

text \<open>\<^verbatim>\<open>s || '0'\<close>: the empty string is falsy.\<close>

definition orZero :: "string \<Rightarrow> string" where
  "orZero s = (if s = [] then ''0'' else s)"

subsection \<open>Numbers\<close>

text \<open>
  A JavaScript \<^verbatim>\<open>number\<close> is an IEEE 754 double: NaN, an infinity, or a finite double,
  given by the rational it denotes (the two zeros are one). An operation on finite
  doubles is the operation on rationals followed by \<open>roundDouble\<close>, the rounding to the
  nearest double, ties to the even significand: 53 bits of significand, exponents from
  \<open>-1022\<close> to \<open>1023\<close>, subnormal numbers below, an infinity from \<open>2 ^ 1024\<close> on.
\<close>

datatype jsnum = NaN | PosInf | NegInf | Num rat

definition pow2 :: "int \<Rightarrow> rat" where
  "pow2 e = 2 powi e"

text \<open>The exponent \<open>e\<close> with \<open>2 ^ e \<le> x < 2 ^ (e + 1)\<close>, for a positive \<open>x\<close>.\<close>

definition binade :: "rat \<Rightarrow> int" where
  "binade x = (if 1 \<le> x then bitlen \<lfloor>x\<rfloor> - 1 else - bitlen (\<lceil>1 / x\<rceil> - 1))"

definition roundHalfEven :: "rat \<Rightarrow> int" where
  "roundHalfEven m =
     (let f = \<lfloor>m\<rfloor>; d = m - of_int f in
      if d < 1 / 2 then f else if 1 / 2 < d then f + 1 else if even f then f else f + 1)"

definition roundDouble :: "rat \<Rightarrow> jsnum" where
  "roundDouble x =
     (if x = 0 then Num 0
      else
        (let a = \<bar>x\<bar>;
             q = max (binade a) (- 1022) - 52;
             y = of_int (roundHalfEven (a / pow2 q)) * pow2 q
         in if pow2 1024 \<le> y then (if 0 < x then PosInf else NegInf)
            else Num (if 0 < x then y else - y)))"

text \<open>
  \<^verbatim>\<open>Number(i)\<close> of a bigint, and the number that is the length of an array. The
  literals \<^verbatim>\<open>0\<close>, \<^verbatim>\<open>100\<close>, \<^verbatim>\<open>1e9\<close> and \<^verbatim>\<open>1e18\<close> of the code are doubles as they are.
\<close>

definition Number :: "int \<Rightarrow> jsnum" where
  "Number i = roundDouble (of_int i)"

fun jsNeg :: "jsnum \<Rightarrow> jsnum" where
  "jsNeg (Num a) = Num (- a)"
| "jsNeg PosInf = NegInf"
| "jsNeg NegInf = PosInf"
| "jsNeg NaN = NaN"

fun jsAdd :: "jsnum \<Rightarrow> jsnum \<Rightarrow> jsnum" where
  "jsAdd (Num a) (Num b) = roundDouble (a + b)"
| "jsAdd PosInf (Num b) = PosInf"
| "jsAdd (Num a) PosInf = PosInf"
| "jsAdd PosInf PosInf = PosInf"
| "jsAdd NegInf (Num b) = NegInf"
| "jsAdd (Num a) NegInf = NegInf"
| "jsAdd NegInf NegInf = NegInf"
| "jsAdd a b = NaN"

definition jsSub :: "jsnum \<Rightarrow> jsnum \<Rightarrow> jsnum" where
  "jsSub a b = jsAdd a (jsNeg b)"

fun jsSign :: "jsnum \<Rightarrow> int" where
  "jsSign (Num a) = (if a = 0 then 0 else if 0 < a then 1 else - 1)"
| "jsSign PosInf = 1"
| "jsSign NegInf = - 1"
| "jsSign NaN = 0"

fun jsMul :: "jsnum \<Rightarrow> jsnum \<Rightarrow> jsnum" where
  "jsMul (Num a) (Num b) = roundDouble (a * b)"
| "jsMul a b =
     (if a = NaN \<or> b = NaN \<or> jsSign a * jsSign b = 0 then NaN
      else if 0 < jsSign a * jsSign b then PosInf else NegInf)"

fun jsDiv :: "jsnum \<Rightarrow> jsnum \<Rightarrow> jsnum" where
  "jsDiv (Num a) (Num b) =
     (if b = 0 then (if a = 0 then NaN else if 0 < a then PosInf else NegInf)
      else roundDouble (a / b))"
| "jsDiv (Num a) PosInf = Num 0"
| "jsDiv (Num a) NegInf = Num 0"
| "jsDiv PosInf (Num b) = (if 0 \<le> b then PosInf else NegInf)"
| "jsDiv NegInf (Num b) = (if 0 \<le> b then NegInf else PosInf)"
| "jsDiv a b = NaN"

text \<open>The order of the numbers; NaN is below and above nothing.\<close>

fun jsLess :: "jsnum \<Rightarrow> jsnum \<Rightarrow> bool" where
  "jsLess (Num a) (Num b) = (a < b)"
| "jsLess NegInf (Num b) = True"
| "jsLess NegInf PosInf = True"
| "jsLess (Num a) PosInf = True"
| "jsLess a b = False"

definition jsMin2 :: "jsnum \<Rightarrow> jsnum \<Rightarrow> jsnum" where
  "jsMin2 a b = (if a = NaN \<or> b = NaN then NaN else if jsLess b a then b else a)"

definition jsMax2 :: "jsnum \<Rightarrow> jsnum \<Rightarrow> jsnum" where
  "jsMax2 a b = (if a = NaN \<or> b = NaN then NaN else if jsLess a b then b else a)"

text \<open>
  \<^verbatim>\<open>Math.min(...xs)\<close> and \<^verbatim>\<open>Math.max(...xs)\<close>: the elements of the array are the
  arguments of one call, and a call with more arguments than the engine accepts throws
  a RangeError. That bound is not the same in every engine: it is the parameter
  \<open>maxArguments\<close>. Of no argument they are the infinities.
\<close>

definition MathMin :: "nat \<Rightarrow> jsnum list \<Rightarrow> thrown + jsnum" where
  "MathMin maxArguments xs =
     (if maxArguments < length xs then Inl RangeError else Inr (foldl jsMin2 PosInf xs))"

definition MathMax :: "nat \<Rightarrow> jsnum list \<Rightarrow> thrown + jsnum" where
  "MathMax maxArguments xs =
     (if maxArguments < length xs then Inl RangeError else Inr (foldl jsMax2 NegInf xs))"

text \<open>\<^verbatim>\<open>Number(wei) / 1e9\<close> and \<^verbatim>\<open>Number(wei) / 1e18\<close>.\<close>

definition weiToGwei :: "int \<Rightarrow> jsnum" where
  "weiToGwei wei = jsDiv (Number wei) (Num (10 ^ 9))"

definition weiToEth :: "int \<Rightarrow> jsnum" where
  "weiToEth wei = jsDiv (Number wei) (Num (10 ^ 18))"

section \<open>Contract deployments (statistics.ts)\<close>

record ContractDeploymentStats =
  totalDeployments :: nat
  deploymentPercentage :: jsnum

definition isDeployment :: "Transaction \<Rightarrow> bool" where
  "isDeployment tx = (tx_to tx = None \<or> tx_to tx = Some [])"

definition computeContractDeployments :: "Transaction list \<Rightarrow> ContractDeploymentStats" where
  "computeContractDeployments transactions =
     (let deployments = filter isDeployment transactions;
          totalDeployments = length deployments;
          deploymentPercentage =
            (if length transactions > 0
             then jsMul (jsDiv (Number (int totalDeployments)) (Number (int (length transactions))))
                    (Num 100)
             else Num 0)
      in \<lparr> totalDeployments = totalDeployments, deploymentPercentage = deploymentPercentage \<rparr>)"

section \<open>Array helpers\<close>

text \<open>\<^verbatim>\<open>xs.map(f)\<close> where \<open>f\<close> may throw: the first exception ends the traversal.\<close>

fun mapThrow :: "('a \<Rightarrow> thrown + 'b) \<Rightarrow> 'a list \<Rightarrow> thrown + 'b list" where
  "mapThrow f [] = Inr []"
| "mapThrow f (x # xs) =
     (case f x of
        Inl e \<Rightarrow> Inl e
      | Inr y \<Rightarrow> (case mapThrow f xs of Inl e \<Rightarrow> Inl e | Inr ys \<Rightarrow> Inr (y # ys)))"

text \<open>\<^verbatim>\<open>xs.reduce(f, init)\<close>, the callback taking the accumulator first.\<close>

definition reduce :: "('b \<Rightarrow> 'a \<Rightarrow> 'b) \<Rightarrow> 'a list \<Rightarrow> 'b \<Rightarrow> 'b" where
  "reduce f xs init = foldl f init xs"

text \<open>Division of bigints truncates towards zero and throws on a zero divisor.\<close>

definition bigintDiv :: "int \<Rightarrow> int \<Rightarrow> thrown + int" where
  "bigintDiv a b = (if b = 0 then Inl RangeError else Inr (sgn a * sgn b * (\<bar>a\<bar> div \<bar>b\<bar>)))"

text \<open>\<^verbatim>\<open>xs.slice(0, end)\<close>: a negative \<open>end\<close> counts from the end of the array.\<close>

definition slice0 :: "'a list \<Rightarrow> int \<Rightarrow> 'a list" where
  "slice0 xs end =
     (let len = int (length xs);
          final = (if end < 0 then max (len + end) 0 else min end len)
      in take (nat final) xs)"

text \<open>
  \<^verbatim>\<open>xs.sort(cmp)\<close> is a stable sort: an element goes before the first one that the
  comparator does not put it after.
\<close>

fun insertBy :: "('a \<Rightarrow> 'a \<Rightarrow> int) \<Rightarrow> 'a \<Rightarrow> 'a list \<Rightarrow> 'a list" where
  "insertBy cmp x [] = [x]"
| "insertBy cmp x (y # ys) = (if cmp x y \<le> 0 then x # y # ys else y # insertBy cmp x ys)"

definition sortBy :: "('a \<Rightarrow> 'a \<Rightarrow> int) \<Rightarrow> 'a list \<Rightarrow> 'a list" where
  "sortBy cmp xs = foldr (insertBy cmp) xs []"

section \<open>Gas price statistics (statistics.ts)\<close>

record GasPriceStats =
  averageGasPriceGwei :: jsnum
  minGasPriceGwei :: jsnum
  maxGasPriceGwei :: jsnum
  gas_totalTransactions :: nat

definition computeAverageGasPrice :: "Transaction list \<Rightarrow> thrown + GasPriceStats" where
  "computeAverageGasPrice transactions =
     (if length transactions = 0 then
        Inr \<lparr> averageGasPriceGwei = Num 0, minGasPriceGwei = Num 0, maxGasPriceGwei = Num 0,
              gas_totalTransactions = 0 \<rparr>
      else
        case mapThrow (\<lambda>tx. BigInt (orZero (tx_gas_price tx))) transactions of
          Inl e \<Rightarrow> Inl e
        | Inr parsed \<Rightarrow>
            (let gasPricesWei = filter (\<lambda>price. price > 0) parsed in
             if length gasPricesWei = 0 then
               Inr \<lparr> averageGasPriceGwei = Num 0, minGasPriceGwei = Num 0,
                     maxGasPriceGwei = Num 0, gas_totalTransactions = length transactions \<rparr>
             else
               (let sumGasPrice = reduce (\<lambda>sum price. sum + price) gasPricesWei 0 in
                case bigintDiv sumGasPrice (int (length gasPricesWei)) of
                  Inl e \<Rightarrow> Inl e
                | Inr averageGasPriceWei \<Rightarrow>
                    (let minGasPriceWei =
                           reduce (\<lambda>min price. if price < min then price else min)
                             gasPricesWei (gasPricesWei ! 0);
                         maxGasPriceWei =
                           reduce (\<lambda>max price. if price > max then price else max)
                             gasPricesWei (gasPricesWei ! 0)
                     in Inr \<lparr> averageGasPriceGwei = weiToGwei averageGasPriceWei,
                              minGasPriceGwei = weiToGwei minGasPriceWei,
                              maxGasPriceGwei = weiToGwei maxGasPriceWei,
                              gas_totalTransactions = length transactions \<rparr>))))"

section \<open>Transaction value statistics (statistics.ts)\<close>

record TransactionValueStats =
  totalValueEth :: jsnum
  averageValueEth :: jsnum
  minValueEth :: jsnum
  maxValueEth :: jsnum
  val_totalTransactions :: nat

text \<open>The callback of the \<^verbatim>\<open>map\<close>: \<^verbatim>\<open>try { return BigInt(tx.value || '0') } catch { return 0n }\<close>.\<close>

definition valueOrZero :: "Transaction \<Rightarrow> int" where
  "valueOrZero tx = (case BigInt (orZero (tx_value tx)) of Inl e \<Rightarrow> 0 | Inr v \<Rightarrow> v)"

definition computeTransactionValueStats :: "Transaction list \<Rightarrow> thrown + TransactionValueStats" where
  "computeTransactionValueStats transactions =
     (if length transactions = 0 then
        Inr \<lparr> totalValueEth = Num 0, averageValueEth = Num 0, minValueEth = Num 0,
              maxValueEth = Num 0, val_totalTransactions = 0 \<rparr>
      else
        (let valuesWei = filter (\<lambda>value. value > 0) (map valueOrZero transactions) in
         if length valuesWei = 0 then
           Inr \<lparr> totalValueEth = Num 0, averageValueEth = Num 0, minValueEth = Num 0,
                 maxValueEth = Num 0, val_totalTransactions = length transactions \<rparr>
         else
           (let sumValue = reduce (\<lambda>sum value. sum + value) valuesWei 0 in
            case bigintDiv sumValue (int (length valuesWei)) of
              Inl e \<Rightarrow> Inl e
            | Inr averageValueWei \<Rightarrow>
                (let minValueWei =
                       reduce (\<lambda>min value. if value < min then value else min)
                         valuesWei (valuesWei ! 0);
                     maxValueWei =
                       reduce (\<lambda>max value. if value > max then value else max)
                         valuesWei (valuesWei ! 0)
                 in Inr \<lparr> totalValueEth = weiToEth sumValue,
                          averageValueEth = weiToEth averageValueWei,
                          minValueEth = weiToEth minValueWei,
                          maxValueEth = weiToEth maxValueWei,
                          val_totalTransactions = length transactions \<rparr>))))"

section \<open>Address statistics (statistics.ts)\<close>

text \<open>\<^verbatim>\<open>toLowerCase\<close> on ASCII: the letters A to Z move to a to z.\<close>

definition toLowerChar :: "char \<Rightarrow> char" where
  "toLowerChar c =
     (case map_of (zip ''ABCDEFGHIJKLMNOPQRSTUVWXYZ'' ''abcdefghijklmnopqrstuvwxyz'') c of
        None \<Rightarrow> c
      | Some l \<Rightarrow> l)"

definition toLowerCase :: "string \<Rightarrow> string" where
  "toLowerCase s = map toLowerChar s"

text \<open>
  A \<^verbatim>\<open>Set\<close> keeps its elements in insertion order, each once; a \<^verbatim>\<open>Map\<close> keeps its
  entries in the order in which their keys were first set.
\<close>

definition setAdd :: "'a \<Rightarrow> 'a list \<Rightarrow> 'a list" where
  "setAdd x s = (if x \<in> set s then s else s @ [x])"

fun mapSet :: "'k \<Rightarrow> 'v \<Rightarrow> ('k \<times> 'v) list \<Rightarrow> ('k \<times> 'v) list" where
  "mapSet k v [] = [(k, v)]"
| "mapSet k v ((k', v') # m) = (if k = k' then (k, v) # m else (k', v') # mapSet k v m)"

definition mapGet :: "('k \<times> 'v) list \<Rightarrow> 'k \<Rightarrow> 'v option" where
  "mapGet m k = map_of m k"

record ActiveAddressesStats =
  uniqueAddresses :: nat
  uniqueSenders :: nat
  uniqueReceivers :: nat

record AddressSets =
  senders :: "string list"
  receivers :: "string list"
  allAddresses :: "string list"

text \<open>The body of the \<^verbatim>\<open>forEach\<close>; an empty string and \<^verbatim>\<open>null\<close> are falsy.\<close>

definition activeStep :: "AddressSets \<Rightarrow> Transaction \<Rightarrow> AddressSets" where
  "activeStep st tx =
     (let st1 = (if tx_from tx \<noteq> [] then
                   st\<lparr> senders := setAdd (toLowerCase (tx_from tx)) (senders st),
                       allAddresses := setAdd (toLowerCase (tx_from tx)) (allAddresses st) \<rparr>
                 else st)
      in case tx_to tx of
           None \<Rightarrow> st1
         | Some to \<Rightarrow>
             (if to \<noteq> [] then
                st1\<lparr> receivers := setAdd (toLowerCase to) (receivers st1),
                     allAddresses := setAdd (toLowerCase to) (allAddresses st1) \<rparr>
              else st1))"

definition computeActiveAddresses :: "Transaction list \<Rightarrow> ActiveAddressesStats" where
  "computeActiveAddresses transactions =
     (let st = foldl activeStep \<lparr> senders = [], receivers = [], allAddresses = [] \<rparr> transactions
      in \<lparr> uniqueAddresses = length (allAddresses st),
           uniqueSenders = length (senders st),
           uniqueReceivers = length (receivers st) \<rparr>)"

record TopAddress =
  address :: string
  transactionCount :: nat

text \<open>\<^verbatim>\<open>addressCounts.set(addr, (addressCounts.get(addr) || 0) + 1)\<close>\<close>

definition countAddress :: "string \<Rightarrow> (string \<times> nat) list \<Rightarrow> (string \<times> nat) list" where
  "countAddress addr addressCounts =
     mapSet addr ((case mapGet addressCounts addr of None \<Rightarrow> 0 | Some c \<Rightarrow> c) + 1) addressCounts"

definition topStep :: "(string \<times> nat) list \<Rightarrow> Transaction \<Rightarrow> (string \<times> nat) list" where
  "topStep addressCounts tx =
     (let m1 = (if tx_from tx \<noteq> [] then countAddress (toLowerCase (tx_from tx)) addressCounts
                else addressCounts)
      in case tx_to tx of
           None \<Rightarrow> m1
         | Some to \<Rightarrow> (if to \<noteq> [] then countAddress (toLowerCase to) m1 else m1))"

definition computeTopAddresses :: "Transaction list \<Rightarrow> int \<Rightarrow> TopAddress list" where
  "computeTopAddresses transactions limit =
     (let addressCounts = foldl topStep [] transactions
      in map (\<lambda>(address, transactionCount).
                \<lparr> address = address, transactionCount = transactionCount \<rparr>)
           (slice0 (sortBy (\<lambda>a b. int (snd b) - int (snd a)) addressCounts) limit))"

text \<open>The parameter \<^verbatim>\<open>limit\<close> left out: its default is 5.\<close>

definition computeTopAddressesDefault :: "Transaction list \<Rightarrow> TopAddress list" where
  "computeTopAddressesDefault transactions = computeTopAddresses transactions 5"

section \<open>Block statistics (statistics.ts)\<close>

text \<open>
  \<^verbatim>\<open>parseInt(s)\<close> with no radix: leading white space and a sign are skipped, a prefix
  \<^verbatim>\<open>0x\<close> selects radix 16, the longest run of digits is read, and no digit gives NaN.
  The result is the double nearest to the integer read.
\<close>

definition parseInt :: "string \<Rightarrow> jsnum" where
  "parseInt s =
     (let t = trimStart s;
          negative = (t \<noteq> [] \<and> hd t = CHR ''-'');
          t1 = (if t \<noteq> [] \<and> (hd t = CHR ''-'' \<or> hd t = CHR ''+'') then tl t else t);
          hex = (take 2 t1 = ''0x'' \<or> take 2 t1 = ''0X'');
          radix = (if hex then 16 else 10);
          t2 = (if hex then drop 2 t1 else t1);
          ds = takeWhile (\<lambda>c. digitValue radix c \<noteq> None) t2
      in case allDigits radix ds of
           None \<Rightarrow> NaN
         | Some n \<Rightarrow> Number (if negative then - int n else int n))"

record TransactionVolumeStats =
  vol_totalTransactions :: jsnum
  blocksAnalyzed :: nat
  averageTransactionsPerBlock :: jsnum

definition computeTransactionVolume :: "Block list \<Rightarrow> TransactionVolumeStats" where
  "computeTransactionVolume blocks =
     (let totalTransactions =
            reduce (\<lambda>sum block. jsAdd sum (Number (blk_transaction_count block))) blocks (Num 0);
          blocksAnalyzed = length blocks;
          averageTransactionsPerBlock =
            (if blocksAnalyzed > 0 then jsDiv totalTransactions (Number (int blocksAnalyzed))
             else Num 0)
      in \<lparr> vol_totalTransactions = totalTransactions, blocksAnalyzed = blocksAnalyzed,
           averageTransactionsPerBlock = averageTransactionsPerBlock \<rparr>)"

record BlockTimeStats =
  averageBlockTimeSeconds :: jsnum
  minBlockTimeSeconds :: jsnum
  maxBlockTimeSeconds :: jsnum
  totalBlocks :: nat

text \<open>The \<^verbatim>\<open>for\<close> loop, from index \<open>i\<close> on, pushing onto \<open>blockTimes\<close>.\<close>

function blockTimesFrom :: "Block list \<Rightarrow> nat \<Rightarrow> jsnum list \<Rightarrow> jsnum list" where
  "blockTimesFrom sortedBlocks i blockTimes =
     (if i < length sortedBlocks then
        (let prevTimestamp = parseInt (blk_timestamp (sortedBlocks ! (i - 1)));
             currTimestamp = parseInt (blk_timestamp (sortedBlocks ! i));
             blockTime = jsSub currTimestamp prevTimestamp
         in blockTimesFrom sortedBlocks (i + 1) (blockTimes @ [blockTime]))
      else blockTimes)"
  by pat_completeness auto
termination
  by (relation "measure (\<lambda>(sortedBlocks, i, blockTimes). length sortedBlocks - i)") auto

definition computeBlockTimeStats :: "nat \<Rightarrow> Block list \<Rightarrow> thrown + BlockTimeStats" where
  "computeBlockTimeStats maxArguments blocks =
     (if length blocks < 2 then
        Inr \<lparr> averageBlockTimeSeconds = Num 0, minBlockTimeSeconds = Num 0,
              maxBlockTimeSeconds = Num 0, totalBlocks = length blocks \<rparr>
      else
        (let sortedBlocks = sortBy (\<lambda>a b. blk_number a - blk_number b) blocks;
             blockTimes = blockTimesFrom sortedBlocks 1 []
         in if length blockTimes = 0 then
              Inr \<lparr> averageBlockTimeSeconds = Num 0, minBlockTimeSeconds = Num 0,
                    maxBlockTimeSeconds = Num 0, totalBlocks = length blocks \<rparr>
            else
              (let sum = reduce jsAdd blockTimes (Num 0);
                   average = jsDiv sum (Number (int (length blockTimes)))
               in case MathMin maxArguments blockTimes of
                    Inl e \<Rightarrow> Inl e
                  | Inr minTime \<Rightarrow>
                      (case MathMax maxArguments blockTimes of
                         Inl e \<Rightarrow> Inl e
                       | Inr maxTime \<Rightarrow>
                           Inr \<lparr> averageBlockTimeSeconds = average,
                                 minBlockTimeSeconds = minTime, maxBlockTimeSeconds = maxTime,
                                 totalBlocks = length blocks \<rparr>))))"

section \<open>Retry with backoff (api-client.ts)\<close>

text \<open>
  An asynchronous operation acts on the world outside the program (the network, the
  remote service) and settles with a value or a thrown one. The world also counts the
  invocations of operations and lists the delays waited for, in milliseconds.
\<close>

record 's World =
  ext :: 's
  invocations :: nat
  waits :: "int list"

type_synonym ('s, 'a) operation = "'s \<Rightarrow> (thrown + 'a) \<times> 's"

text \<open>\<^verbatim>\<open>error instanceof Error ? error : new Error(String(error))\<close>\<close>

definition asError :: "thrown \<Rightarrow> thrown" where
  "asError error = (case error of Error m \<Rightarrow> Error m | NonError v \<Rightarrow> Error v)"

text \<open>The \<^verbatim>\<open>for\<close> loop of \<^verbatim>\<open>retryWithBackoff\<close> from \<open>attempt\<close> on, and the
  \<^verbatim>\<open>throw\<close> after it.\<close>

function retryLoop ::
  "('s, 'a) operation \<Rightarrow> int \<Rightarrow> int \<Rightarrow> int \<Rightarrow> thrown option \<Rightarrow> 's World
     \<Rightarrow> (thrown + 'a) \<times> 's World" where
  "retryLoop fn maxRetries initialDelay attempt lastError w =
     (if attempt < maxRetries then
        (case fn (ext w) of
           (Inr v, s) \<Rightarrow> (Inr v, w\<lparr> ext := s, invocations := invocations w + 1 \<rparr>)
         | (Inl error, s) \<Rightarrow>
             (let w1 = w\<lparr> ext := s, invocations := invocations w + 1 \<rparr>;
                  w2 = (if attempt < maxRetries - 1
                        then w1\<lparr> waits := waits w1 @ [initialDelay * 2 ^ nat attempt] \<rparr>
                        else w1)
              in retryLoop fn maxRetries initialDelay (attempt + 1) (Some (asError error)) w2))
      else
        (Inl (case lastError of
                Some e \<Rightarrow> e
              | None \<Rightarrow> Error ''Unknown error occurred''), w))"
  by pat_completeness auto
termination
  by (relation "measure (\<lambda>(fn, maxRetries, initialDelay, attempt, lastError, w).
                   nat (maxRetries - attempt))") auto

definition retryWithBackoff ::
  "('s, 'a) operation \<Rightarrow> int \<Rightarrow> int \<Rightarrow> 's World \<Rightarrow> (thrown + 'a) \<times> 's World" where
  "retryWithBackoff fn maxRetries initialDelay w = retryLoop fn maxRetries initialDelay 0 None w"

text \<open>The parameters left out: 3 attempts, 1000 ms.\<close>

definition retryWithBackoffDefault :: "('s, 'a) operation \<Rightarrow> 's World \<Rightarrow> (thrown + 'a) \<times> 's World" where
  "retryWithBackoffDefault fn w = retryWithBackoff fn 3 1000 w"

text \<open>
  For the statements about the loop: what \<open>n\<close> invocations of the operation in a row
  give, each with the state of the world it leaves, and the backoff delays after the
  attempts \<open>a, ..., a + k - 1\<close>.
\<close>

fun attempts :: "('s, 'a) operation \<Rightarrow> 's \<Rightarrow> nat \<Rightarrow> ((thrown + 'a) \<times> 's) list" where
  "attempts fn s 0 = []"
| "attempts fn s (Suc n) = fn s # attempts fn (snd (fn s)) n"

definition backoffs :: "int \<Rightarrow> nat \<Rightarrow> nat \<Rightarrow> int list" where
  "backoffs initialDelay a k = map (\<lambda>j. initialDelay * 2 ^ j) [a ..< a + k]"

definition failed :: "(thrown + 'a) \<times> 's \<Rightarrow> bool" where
  "failed r = (case fst r of Inl e \<Rightarrow> True | Inr v \<Rightarrow> False)"

text \<open>An operation that rejects with a string, not an \<^verbatim>\<open>Error\<close>, whatever the world.\<close>

definition rejectBoom :: "(unit, nat) operation" where
  "rejectBoom s = (Inl (NonError ''boom''), s)"

definition world0 :: "unit World" where
  "world0 = \<lparr> ext = (), invocations = 0, waits = [] \<rparr>"

section \<open>The run (index.ts)\<close>

record 's Fetched =
  transactions :: "Transaction list"
  warnings :: "int list"
  world :: "'s World"

text \<open>
  The loop over the blocks whose transactions are fetched: a failure after the retries
  is a warning naming the block, and the loop goes on. So is the RangeError of
  \<^verbatim>\<open>transactions.push(...blockTxs)\<close> when the transactions of a block are more than
  the arguments that a call accepts (\<open>maxArguments\<close>, as for \<open>MathMin\<close>).
\<close>

fun fetchLoop ::
  "nat \<Rightarrow> (int \<Rightarrow> ('s, Transaction list) operation) \<Rightarrow> Block list \<Rightarrow> 's Fetched
     \<Rightarrow> 's Fetched" where
  "fetchLoop maxArguments getTransactions [] st = st"
| "fetchLoop maxArguments getTransactions (block # rest) st =
     (case retryWithBackoffDefault (getTransactions (blk_number block)) (world st) of
        (Inr blockTxs, w) \<Rightarrow>
          (if maxArguments < length blockTxs then
             fetchLoop maxArguments getTransactions rest
               (st\<lparr> warnings := warnings st @ [blk_number block], world := w \<rparr>)
           else
             fetchLoop maxArguments getTransactions rest
               (st\<lparr> transactions := transactions st @ blockTxs, world := w \<rparr>))
      | (Inl error, w) \<Rightarrow>
          fetchLoop maxArguments getTransactions rest
            (st\<lparr> warnings := warnings st @ [blk_number block], world := w \<rparr>))"

definition fetchTransactions ::
  "nat \<Rightarrow> (int \<Rightarrow> ('s, Transaction list) operation) \<Rightarrow> Block list \<Rightarrow> 's World
     \<Rightarrow> 's Fetched" where
  "fetchTransactions maxArguments getTransactions blocks w =
     fetchLoop maxArguments getTransactions (slice0 blocks (min 20 (int (length blocks))))
       \<lparr> transactions = [], warnings = [], world = w \<rparr>"

record Statistics =
  transactionVolume :: TransactionVolumeStats
  gasPriceStats :: GasPriceStats
  activeAddresses :: ActiveAddressesStats
  contractDeployments :: ContractDeploymentStats
  blockTimeStats :: BlockTimeStats
  topAddresses :: "TopAddress list"
  valueStats :: TransactionValueStats

datatype outcome = Exit int | Completed Statistics

text \<open>The statistics of the run; an exception in one of them ends the run with status 1.\<close>

definition computeAll :: "nat \<Rightarrow> Block list \<Rightarrow> Transaction list \<Rightarrow> outcome" where
  "computeAll maxArguments blocks txs =
     (case computeAverageGasPrice txs of
        Inl e \<Rightarrow> Exit 1
      | Inr gasPrice \<Rightarrow>
          (case computeBlockTimeStats maxArguments blocks of
             Inl e \<Rightarrow> Exit 1
           | Inr blockTimes \<Rightarrow>
               (case computeTransactionValueStats txs of
                  Inl e \<Rightarrow> Exit 1
                | Inr values \<Rightarrow>
                    Completed \<lparr> transactionVolume = computeTransactionVolume blocks,
                                gasPriceStats = gasPrice,
                                activeAddresses = computeActiveAddresses txs,
                                contractDeployments = computeContractDeployments txs,
                                blockTimeStats = blockTimes,
                                topAddresses = computeTopAddresses txs 5,
                                valueStats = values \<rparr>)))"

definition main ::
  "nat \<Rightarrow> ('s, Block list) operation \<Rightarrow> (int \<Rightarrow> ('s, Transaction list) operation)
     \<Rightarrow> 's World \<Rightarrow> outcome \<times> 's World" where
  "main maxArguments getLatestBlocks getTransactions w0 =
     (case retryWithBackoffDefault getLatestBlocks w0 of
        (Inl error, w) \<Rightarrow> (Exit 1, w)
      | (Inr blocks, w) \<Rightarrow>
          (if length blocks = 0 then (Exit 0, w)
           else
             (let fetched = fetchTransactions maxArguments getTransactions blocks w
              in (computeAll maxArguments blocks (transactions fetched), world fetched))))"

section \<open>Definitions for the statements, and sample inputs\<close>

definition tx0 :: Transaction where
  "tx0 = \<lparr> tx_hash = ''0x1'', tx_from = ''0xA'', tx_to = Some ''0xB'', tx_value = ''0'',
           tx_gas_price = ''0'', tx_gas_used = ''21000'', tx_gas = ''21000'',
           tx_timestamp = ''1000'' \<rparr>"

definition tx3 :: Transaction where
  "tx3 = tx0\<lparr> tx_value := ''3'', tx_gas_price := ''3'' \<rparr>"


text \<open>For the statements: the sets of senders and of receivers, as sets.\<close>

definition senderSet :: "Transaction list \<Rightarrow> string set" where
  "senderSet txs = {toLowerCase (tx_from tx) | tx. tx \<in> set txs \<and> tx_from tx \<noteq> []}"

definition receiverSet :: "Transaction list \<Rightarrow> string set" where
  "receiverSet txs = {toLowerCase a | a tx. tx \<in> set txs \<and> tx_to tx = Some a \<and> a \<noteq> []}"

definition mixedCaseTxs :: "Transaction list" where
  "mixedCaseTxs =
     [tx0\<lparr> tx_from := ''0xAB'', tx_to := None \<rparr>,
      tx0\<lparr> tx_from := [], tx_to := Some ''0xCD'' \<rparr>,
      tx0\<lparr> tx_from := ''0xab'', tx_to := Some [] \<rparr>]"

text \<open>
  For the statements, from the words of the specification: the addresses a transaction
  counts for (its lowercased sender and receiver, each if not empty), those of a list of
  transactions in order, the elements of a list in the order of their first appearance,
  and the table of the counts in that order.
\<close>

definition txAddresses :: "Transaction \<Rightarrow> string list" where
  "txAddresses tx =
     (if tx_from tx \<noteq> [] then [toLowerCase (tx_from tx)] else [])
     @ (case tx_to tx of None \<Rightarrow> [] | Some a \<Rightarrow> if a \<noteq> [] then [toLowerCase a] else [])"

definition addressOccurrences :: "Transaction list \<Rightarrow> string list" where
  "addressOccurrences txs = concat (map txAddresses txs)"

definition firstSeen :: "'a list \<Rightarrow> 'a list" where
  "firstSeen xs = rev (remdups (rev xs))"

definition countTable :: "string list \<Rightarrow> (string \<times> nat) list" where
  "countTable occ = map (\<lambda>a. (a, count_list occ a)) (firstSeen occ)"

definition tieTxs :: "Transaction list" where
  "tieTxs =
     [tx0\<lparr> tx_from := ''0xB'', tx_to := Some ''0xA'' \<rparr>,
      tx0\<lparr> tx_from := ''0xC'', tx_to := Some ''0xc'' \<rparr>,
      tx0\<lparr> tx_from := [], tx_to := None \<rparr>]"

text \<open>
  For the statements, from the words of the specification: the differences of the
  consecutive timestamps of a list of blocks.
\<close>

definition timestampDeltas :: "Block list \<Rightarrow> jsnum list" where
  "timestampDeltas bs =
     map (\<lambda>i. jsSub (parseInt (blk_timestamp (bs ! i))) (parseInt (blk_timestamp (bs ! (i - 1)))))
       [1 ..< length bs]"

definition blkA :: Block where
  "blkA = \<lparr> blk_hash = ''0xa'', blk_number = 7, blk_timestamp = ''1000'', blk_transaction_count = 0 \<rparr>"

definition blkB :: Block where
  "blkB = \<lparr> blk_hash = ''0xb'', blk_number = 7, blk_timestamp = ''1010'', blk_transaction_count = 0 \<rparr>"

definition blk :: "int \<Rightarrow> string \<Rightarrow> Block" where
  "blk n t = \<lparr> blk_hash = ''0x0'', blk_number = n, blk_timestamp = t, blk_transaction_count = 0 \<rparr>"

definition orderedBlocks :: "Block list" where
  "orderedBlocks = [blk 100 ''1000'', blk 101 ''1010'', blk 102 ''1025'', blk 103 ''1040'']"

definition shuffledBlocks :: "Block list" where
  "shuffledBlocks = [blk 103 ''1040'', blk 100 ''1000'', blk 102 ''1025'', blk 101 ''1010'']"

text \<open>For the statements: what the loop from attempt \<open>a\<close> on gives, \<open>n\<close> attempts being left.\<close>

definition loopResult ::
  "int \<Rightarrow> nat \<Rightarrow> nat \<Rightarrow> thrown option \<Rightarrow> 's World \<Rightarrow> ((thrown + 'a) \<times> 's) list
     \<Rightarrow> (thrown + 'a) \<times> 's World" where
  "loopResult d a n le w outs =
     (let k = length (takeWhile failed outs) in
      if k < n then
        (fst (outs ! k),
         w\<lparr> ext := snd (outs ! k), invocations := invocations w + k + 1,
            waits := waits w @ backoffs d a k \<rparr>)
      else if n = 0 then
        (Inl (case le of Some e \<Rightarrow> e | None \<Rightarrow> Error ''Unknown error occurred''), w)
      else
        (Inl (asError (projl (fst (last outs)))),
         w\<lparr> ext := snd (last outs), invocations := invocations w + n,
            waits := waits w @ backoffs d a (n - 1) \<rparr>))"

text \<open>
  An operation that fails twice and then succeeds, and one that always fails, each
  time with another message; the state of the world counts their invocations.
\<close>

definition flaky :: "(nat, string) operation" where
  "flaky s = (if s < 2 then Inl (Error ''Temporary error'') else Inr ''success'', Suc s)"

definition alwaysFails :: "(nat, string) operation" where
  "alwaysFails s = (Inl (Error (replicate s CHR ''x'')), Suc s)"

definition world1 :: "nat World" where
  "world1 = \<lparr> ext = 0, invocations = 0, waits = [] \<rparr>"

text \<open>
  A service with 22 blocks, numbered from 1, and two answers to the request for the
  transactions of a block, which differ from block 21 on only.
\<close>

definition manyBlocks :: "Block list" where
  "manyBlocks = map (\<lambda>n. blk (int n) ''1000'') [1 ..< 23]"

definition listBlocks :: "(unit, Block list) operation" where
  "listBlocks s = (Inr manyBlocks, s)"

definition oneTx :: "int \<Rightarrow> (unit, Transaction list) operation" where
  "oneTx n s = (Inr [tx3], s)"

definition oneTxUpTo20 :: "int \<Rightarrow> (unit, Transaction list) operation" where
  "oneTxUpTo20 n s = (if n \<le> 20 then Inr [tx3] else Inl (Error ''Network error''), s)"

text \<open>Two deployments among three transactions.\<close>

definition deploymentTxs :: "Transaction list" where
  "deploymentTxs = [tx0\<lparr> tx_to := None \<rparr>, tx0, tx0\<lparr> tx_to := Some [] \<rparr>]"

text \<open>
  For the statements: the differences of the consecutive members of a list of integers,
  and the timestamps of the sample blocks as integers.
\<close>

definition consecutiveDifferences :: "int list \<Rightarrow> int list" where
  "consecutiveDifferences ts = map (\<lambda>i. ts ! i - ts ! (i - 1)) [1 ..< length ts]"

definition sampleSeconds :: "Block \<Rightarrow> int" where
  "sampleSeconds b = 1000 + (if blk_number b = 100 then 0 else if blk_number b = 101 then 10
                             else if blk_number b = 102 then 25 else 40)"

section \<open>Verified properties\<close>

subsection \<open>Evaluation of the primitives\<close>

lemmas parse_defs =
  BigInt_def orZero_def StringToBigInt_def trim_def trimStart_def isWhiteSpace_def
  allDigits_def digitValue_def

lemma BigInt_abc: "BigInt (orZero ''abc'') = Inl SyntaxError"
  by (simp add: parse_defs)

lemma BigInt_0: "BigInt (orZero ''0'') = Inr 0"
  by (simp add: parse_defs)

lemma BigInt_empty: "BigInt (orZero []) = Inr 0"
  by (simp add: parse_defs)

lemma mapThrow_returns:
  "(\<exists>ys. mapThrow f xs = Inr ys) \<longleftrightarrow> (\<forall>x \<in> set xs. \<exists>y. f x = Inr y)"
proof (induction xs)
  case Nil
  show ?case by simp
next
  case (Cons x xs)
  show ?case
  proof (cases "f x")
    case (Inl e)
    then show ?thesis by simp
  next
    case (Inr y)
    with Cons show ?thesis by (cases "mapThrow f xs") auto
  qed
qed

lemma isDeployment_eq: "isDeployment = (\<lambda>tx. tx_to tx = None \<or> tx_to tx = Some [])"
  by (simp add: isDeployment_def fun_eq_iff)

subsection \<open>Doubles\<close>

lemma pow2_pos: "0 < pow2 e"
  by (simp add: pow2_def)

lemma pow2_add: "pow2 (a + b) = pow2 a * pow2 b"
  by (simp add: pow2_def power_int_add)

lemma pow2_diff: "pow2 (a - b) = pow2 a / pow2 b"
  by (simp add: pow2_def power_int_diff)

lemma pow2_mono: "a \<le> b \<Longrightarrow> pow2 a \<le> pow2 b"
  by (simp add: pow2_def power_int_increasing)

lemma pow2_strict_mono: "a < b \<Longrightarrow> pow2 a < pow2 b"
  by (simp add: pow2_def power_int_strict_increasing)

lemma pow2_nat: "0 \<le> e \<Longrightarrow> pow2 e = 2 ^ nat e"
  by (simp add: pow2_def power_int_def)

lemma pow2_neg: "e \<le> 0 \<Longrightarrow> pow2 e = 1 / 2 ^ nat (- e)"
  by (cases "e = 0") (simp_all add: pow2_def power_int_def field_simps)

lemma binade_lower:
  assumes "0 < x"
  shows "pow2 (binade x) \<le> x"
proof (cases "1 \<le> x")
  case True
  define n where "n = \<lfloor>x\<rfloor>"
  have n: "0 < n" using True by (simp add: n_def)
  have b: "1 \<le> bitlen n" using n by (simp add: bitlen_alt_def)
  have "2 ^ nat (bitlen n - 1) \<le> n" using bitlen_bounds [OF n] by simp
  then have "(of_int (2 ^ nat (bitlen n - 1)) :: rat) \<le> of_int n" by (simp only: of_int_le_iff)
  also have "\<dots> \<le> x" by (simp add: n_def)
  finally show ?thesis using True b by (simp add: binade_def n_def [symmetric] pow2_nat)
next
  case False
  define m where "m = \<lceil>1 / x\<rceil> - 1"
  define k where "k = bitlen m"
  have y: "1 < 1 / x" using False assms by simp
  then have m: "0 < m" unfolding m_def by linarith
  have k: "1 \<le> k" using m by (simp add: k_def bitlen_alt_def)
  have "m + 1 \<le> 2 ^ nat k" using bitlen_bounds [OF m] by (simp add: k_def)
  then have "(of_int (m + 1) :: rat) \<le> of_int (2 ^ nat k)" by (simp only: of_int_le_iff)
  moreover have "1 / x \<le> of_int (m + 1)" by (simp add: m_def)
  ultimately have "1 / x \<le> 2 ^ nat k" by simp
  then have "1 / 2 ^ nat k \<le> x" using assms by (simp add: field_simps)
  then show ?thesis using False k
    by (simp add: binade_def m_def [symmetric] k_def [symmetric] pow2_neg)
qed

lemma binade_upper:
  assumes "0 < x"
  shows "x < pow2 (binade x + 1)"
proof (cases "1 \<le> x")
  case True
  define n where "n = \<lfloor>x\<rfloor>"
  have n: "0 < n" using True by (simp add: n_def)
  have b: "1 \<le> bitlen n" using n by (simp add: bitlen_alt_def)
  have "n + 1 \<le> 2 ^ nat (bitlen n)" using bitlen_bounds [OF n] by simp
  then have "(of_int (n + 1) :: rat) \<le> of_int (2 ^ nat (bitlen n))" by (simp only: of_int_le_iff)
  moreover have "x < of_int (n + 1)" unfolding n_def by linarith
  ultimately have "x < 2 ^ nat (bitlen n)" by simp
  then show ?thesis using True b by (simp add: binade_def n_def [symmetric] pow2_nat)
next
  case False
  define m where "m = \<lceil>1 / x\<rceil> - 1"
  define k where "k = bitlen m"
  have y: "1 < 1 / x" using False assms by simp
  then have m: "0 < m" unfolding m_def by linarith
  have k: "1 \<le> k" using m by (simp add: k_def bitlen_alt_def)
  have "2 ^ nat (k - 1) \<le> m" using bitlen_bounds [OF m] by (simp add: k_def)
  then have "(of_int (2 ^ nat (k - 1)) :: rat) \<le> of_int m" by (simp only: of_int_le_iff)
  also have "of_int m < 1 / x" unfolding m_def by linarith
  finally have "2 ^ nat (k - 1) < 1 / x" by simp
  then have "x < 1 / 2 ^ nat (k - 1)" using assms by (simp add: field_simps)
  moreover have "pow2 (- k + 1) = 1 / 2 ^ nat (k - 1)" using k by (simp add: pow2_neg)
  ultimately show ?thesis using False
    by (simp add: binade_def m_def [symmetric] k_def [symmetric])
qed

lemma binade_unique:
  assumes "0 < x" "pow2 e \<le> x" "x < pow2 (e + 1)"
  shows "binade x = e"
proof (rule ccontr)
  assume "binade x \<noteq> e"
  then consider "binade x < e" | "e < binade x" by linarith
  then show False
  proof cases
    case 1
    then have "pow2 (binade x + 1) \<le> pow2 e" by (intro pow2_mono) simp
    with binade_upper [OF assms(1)] assms(2) show False by simp
  next
    case 2
    then have "pow2 (e + 1) \<le> pow2 (binade x)" by (intro pow2_mono) simp
    with binade_lower [OF assms(1)] assms(3) show False by simp
  qed
qed

lemma floor_rat_numeral [simp]:
  "\<lfloor>(numeral a :: rat) / numeral b\<rfloor> = numeral a div numeral b"
  using floor_divide_of_int_eq [of "numeral a" "numeral b", where ?'a = rat] by simp

lemma roundHalfEven_of_int: "roundHalfEven (of_int n) = n"
  by (simp add: roundHalfEven_def)

lemma roundHalfEven_error: "\<bar>of_int (roundHalfEven m) - m\<bar> \<le> 1 / 2"
proof -
  have "of_int \<lfloor>m\<rfloor> \<le> m" "m < of_int \<lfloor>m\<rfloor> + 1" by linarith+
  then show ?thesis by (auto simp add: roundHalfEven_def Let_def abs_if; linarith)
qed

lemma roundHalfEven_le: "m \<le> of_int k \<Longrightarrow> roundHalfEven m \<le> k"
proof -
  assume le: "m \<le> of_int k"
  then have f: "\<lfloor>m\<rfloor> \<le> k" by (simp add: floor_le_iff)
  show ?thesis
  proof (cases "\<lfloor>m\<rfloor> = k")
    case True
    then have "m = of_int k" using le by linarith
    then show ?thesis by (simp add: roundHalfEven_of_int)
  next
    case False
    with f have "\<lfloor>m\<rfloor> + 1 \<le> k" by simp
    then show ?thesis by (auto simp add: roundHalfEven_def Let_def)
  qed
qed

lemma roundHalfEven_ge: "of_int k \<le> m \<Longrightarrow> k \<le> roundHalfEven m"
proof -
  assume "of_int k \<le> m"
  then have "k \<le> \<lfloor>m\<rfloor>" by (simp add: le_floor_iff)
  then show ?thesis by (auto simp add: roundHalfEven_def Let_def)
qed

text \<open>A positive number in the range of the normal doubles, its exponent being known.\<close>

lemma roundDouble_normal:
  assumes "pow2 e \<le> x" "x < pow2 (e + 1)" "- 1022 \<le> e" "e \<le> 1023"
  shows "roundDouble x =
     (let y = of_int (roundHalfEven (x / pow2 (e - 52))) * pow2 (e - 52)
      in if pow2 1024 \<le> y then PosInf else Num y)"
proof -
  have pos: "0 < x" using assms(1) pow2_pos [of e] by simp
  have "binade \<bar>x\<bar> = e" using pos assms by (simp add: binade_unique)
  then show ?thesis using pos assms(3) by (simp add: roundDouble_def Let_def max_def)
qed

lemma roundDouble_finite:
  assumes "pow2 e \<le> x" "x < pow2 (e + 1)" "- 1022 \<le> e" "e \<le> 1022"
  shows "roundDouble x = Num (of_int (roundHalfEven (x / pow2 (e - 52))) * pow2 (e - 52))"
proof -
  define q where "q = e - 52"
  have "x / pow2 q < pow2 (e + 1) / pow2 q"
    using assms(2) pow2_pos [of q] by (simp add: divide_strict_right_mono)
  also have "\<dots> = pow2 53" by (simp add: q_def pow2_diff [symmetric])
  also have "\<dots> = of_int (2 ^ 53)" by (simp add: pow2_def)
  finally have "roundHalfEven (x / pow2 q) \<le> 2 ^ 53" by (intro roundHalfEven_le) simp
  then have "(of_int (roundHalfEven (x / pow2 q)) :: rat) \<le> of_int (2 ^ 53)"
    by (simp only: of_int_le_iff)
  then have "of_int (roundHalfEven (x / pow2 q)) * pow2 q \<le> of_int (2 ^ 53) * pow2 q"
    using pow2_pos [of q] by (simp add: mult_right_mono)
  also have "of_int (2 ^ 53) * pow2 q = pow2 (e + 1)"
  proof -
    have "pow2 53 * pow2 q = pow2 (53 + q)" by (simp only: pow2_add)
    moreover have "53 + q = e + 1" by (simp add: q_def)
    moreover have "pow2 53 = of_int (2 ^ 53)" by (simp add: pow2_def)
    ultimately show ?thesis by simp
  qed
  also have "\<dots> < pow2 1024" using assms(4) by (intro pow2_strict_mono) simp
  finally have "\<not> pow2 1024 \<le> of_int (roundHalfEven (x / pow2 q)) * pow2 q" by simp
  then show ?thesis
    using roundDouble_normal [OF assms(1) assms(2) assms(3)] assms(4)
    by (simp add: Let_def q_def)
qed

lemma roundDouble_minus: "roundDouble (- x) = jsNeg (roundDouble x)"
  by (simp add: roundDouble_def Let_def)

text \<open>The rounding error in the range of the normal doubles: half a unit in the last
  place, which is at most \<open>2 ^ - 53\<close> of the number.\<close>

lemma roundDouble_relative_error:
  assumes "pow2 (- 1022) \<le> x" "x < pow2 1023"
  shows "\<exists>r. roundDouble x = Num r \<and> \<bar>r - x\<bar> \<le> x * pow2 (- 53)"
proof -
  have pos: "0 < x" using assms(1) pow2_pos [of "- 1022"] by simp
  define e where "e = binade x"
  have lo: "pow2 e \<le> x" and hi: "x < pow2 (e + 1)"
    using binade_lower [OF pos] binade_upper [OF pos] by (simp_all add: e_def)
  have e1: "- 1022 \<le> e"
  proof (rule ccontr)
    assume "\<not> - 1022 \<le> e"
    then have "pow2 (e + 1) \<le> pow2 (- 1022)" by (intro pow2_mono) simp
    with hi assms(1) show False by simp
  qed
  have e2: "e \<le> 1022"
  proof (rule ccontr)
    assume "\<not> e \<le> 1022"
    then have "pow2 1023 \<le> pow2 e" by (intro pow2_mono) simp
    with lo assms(2) show False by simp
  qed
  define q where "q = e - 52"
  define n where "n = roundHalfEven (x / pow2 q)"
  have r: "roundDouble x = Num (of_int n * pow2 q)"
    using roundDouble_finite [OF lo hi e1 e2] by (simp add: q_def n_def)
  have "of_int n * pow2 q - x = (of_int n - x / pow2 q) * pow2 q"
    using pow2_pos [of q] by (simp add: left_diff_distrib)
  then have "\<bar>of_int n * pow2 q - x\<bar> = \<bar>of_int n - x / pow2 q\<bar> * \<bar>pow2 q\<bar>"
    by (simp only: abs_mult)
  also have "\<dots> = \<bar>of_int n - x / pow2 q\<bar> * pow2 q"
    using pow2_pos [of q] by simp
  also have "\<dots> \<le> 1 / 2 * pow2 q"
    using roundHalfEven_error [of "x / pow2 q"] pow2_pos [of q]
    by (intro mult_right_mono) (simp_all add: n_def)
  also have "1 / 2 * pow2 q = pow2 e * pow2 (- 53)"
  proof -
    have "pow2 e * pow2 (- 53) = pow2 (e + (- 53))" by (simp only: pow2_add)
    moreover have "pow2 (- 1) * pow2 q = pow2 (- 1 + q)" by (simp only: pow2_add)
    moreover have "e + (- 53) = - 1 + q" by (simp add: q_def)
    moreover have "pow2 (- 1) = 1 / 2" by (simp add: pow2_def)
    ultimately show ?thesis by simp
  qed
  also have "\<dots> \<le> x * pow2 (- 53)"
    using lo pow2_pos [of "- 53"] by (intro mult_right_mono) simp_all
  finally show ?thesis using r by simp
qed

text \<open>Integers up to \<open>2 ^ 53\<close> in magnitude are doubles.\<close>

lemma roundDouble_nat_exact:
  assumes "0 < i" "i \<le> 2 ^ 53"
  shows "roundDouble (of_int i) = Num (of_int i)"
proof -
  define x :: rat where "x = of_int i"
  have pos: "0 < x" and one: "1 \<le> x" using assms(1) by (simp_all add: x_def)
  have top: "x \<le> pow2 53" using assms(2) by (simp add: x_def pow2_def)
  define e where "e = binade x"
  have lo: "pow2 e \<le> x" and hi: "x < pow2 (e + 1)"
    using binade_lower [OF pos] binade_upper [OF pos] by (simp_all add: e_def)
  have e0: "0 \<le> e"
  proof (rule ccontr)
    assume "\<not> 0 \<le> e"
    then have "pow2 (e + 1) \<le> pow2 0" by (intro pow2_mono) simp
    with hi one show False by (simp add: pow2_def)
  qed
  have e53: "e \<le> 53"
  proof (rule ccontr)
    assume "\<not> e \<le> 53"
    then have "pow2 54 \<le> pow2 e" by (intro pow2_mono) simp
    moreover have "pow2 53 < pow2 54" by (intro pow2_strict_mono) simp
    ultimately show False using lo top by simp
  qed
  have fin: "roundDouble x = Num (of_int (roundHalfEven (x / pow2 (e - 52))) * pow2 (e - 52))"
    using e0 e53 by (intro roundDouble_finite [OF lo hi]) simp_all
  have "\<exists>n. x / pow2 (e - 52) = of_int n"
  proof (cases "e \<le> 52")
    case True
    then have "pow2 (e - 52) = 1 / 2 ^ nat (52 - e)" by (simp add: pow2_neg)
    then have "x / pow2 (e - 52) = of_int (i * 2 ^ nat (52 - e))" by (simp add: x_def)
    then show ?thesis by blast
  next
    case False
    with e53 have e: "e = 53" by simp
    with lo top have "x = pow2 53" by simp
    then have "x / pow2 (e - 52) = of_int (2 ^ 52)" by (simp add: e pow2_def)
    then show ?thesis by blast
  qed
  then obtain n where n: "x / pow2 (e - 52) = of_int n" by blast
  have "of_int n * pow2 (e - 52) = x" using n pow2_pos [of "e - 52"] by (simp add: field_simps)
  then show ?thesis using fin n by (simp add: roundHalfEven_of_int x_def)
qed

lemma Number_exact: "\<bar>i\<bar> \<le> 2 ^ 53 \<Longrightarrow> Number i = Num (of_int i)"
proof -
  assume b: "\<bar>i\<bar> \<le> 2 ^ 53"
  consider "i = 0" | "0 < i" | "i < 0" by linarith
  then show ?thesis
  proof cases
    case 1
    then show ?thesis by (simp add: Number_def roundDouble_def)
  next
    case 2
    with b show ?thesis by (simp add: Number_def roundDouble_nat_exact)
  next
    case 3
    with b have "roundDouble (of_int (- i)) = Num (of_int (- i))"
      by (intro roundDouble_nat_exact) simp_all
    then have "roundDouble (- of_int i) = Num (- of_int i)" by simp
    then have "jsNeg (roundDouble (of_int i)) = Num (- of_int i)"
      by (simp only: roundDouble_minus)
    then show ?thesis by (cases "roundDouble (of_int i :: rat)") (simp_all add: Number_def)
  qed
qed

lemma ex_two_thirds: "roundDouble (2 / 3) = Num (6004799503160661 / 9007199254740992)"
  by (subst roundDouble_finite [where e = "- 1"]) (simp_all add: pow2_def roundHalfEven_def Let_def)

subsection \<open>Contract deployments\<close>

lemma pow2_double: "2 * pow2 (- 53) = pow2 (- 52)"
  by (simp add: pow2_def)

lemma pow2_square: "pow2 (- 53) * pow2 (- 53) = pow2 (- 106)"
  by (simp only: pow2_add [symmetric]) simp

text \<open>A quotient of two counts, times 100, in doubles: two roundings.\<close>

lemma percentage_error:
  assumes "0 < d" "d \<le> n" "n \<le> 2 ^ 53"
  shows "\<exists>p. jsMul (jsDiv (Number (int d)) (Number (int n))) (Num 100) = Num p
           \<and> \<bar>p - 100 * of_nat d / of_nat n\<bar>
               \<le> 100 * of_nat d / of_nat n * (pow2 (- 52) + pow2 (- 106))"
proof -
  define u where "u = pow2 (- 53)"
  define x :: rat where "x = of_nat d / of_nat n"
  have u: "0 < u" "u \<le> 1 / 2" by (simp_all add: u_def pow2_def)
  have n: "0 < n" using assms by simp
  have Nd: "Number (int d) = Num (of_nat d)" using assms by (simp add: Number_exact)
  have Nn: "Number (int n) = Num (of_nat n)" using assms by (simp add: Number_exact)
  have x1: "x \<le> 1" using assms n by (simp add: x_def)
  have "1 / of_nat n \<le> x" using assms n by (simp add: x_def divide_right_mono)
  moreover have "(of_nat n :: rat) \<le> 2 ^ 53" using assms(3) by (metis of_nat_le_iff of_nat_numeral of_nat_power)
  then have "1 / 2 ^ 53 \<le> 1 / (of_nat n :: rat)" using n by (simp add: frac_le)
  ultimately have xlo: "pow2 (- 53) \<le> x" by (simp add: pow2_def)
  have xpos: "0 < x" using xlo pow2_pos [of "- 53"] by simp
  have "pow2 (- 1022) \<le> pow2 (- 53)" by (intro pow2_mono) simp
  with xlo have a1: "pow2 (- 1022) \<le> x" by simp
  have "(1::rat) < pow2 1023" by (simp add: pow2_def)
  with x1 have a2: "x < pow2 1023" by simp
  obtain r where r: "roundDouble x = Num r" and re: "\<bar>r - x\<bar> \<le> x * u"
    using roundDouble_relative_error [OF a1 a2] by (auto simp add: u_def)
  have rlo: "x * (1 - u) \<le> r" and rhi: "r \<le> x * (1 + u)"
    using re by (simp_all add: abs_le_iff algebra_simps)
  have "x * (1 / 2) \<le> x * (1 - u)" using xpos u by (intro mult_left_mono) simp_all
  with rlo have rhalf: "x / 2 \<le> r" by simp
  have "pow2 (- 1022) \<le> pow2 (- 54)" by (intro pow2_mono) simp
  also have "pow2 (- 54) = pow2 (- 53) / 2" by (simp add: pow2_def)
  also have "\<dots> \<le> x / 2" using xlo by simp
  also have "\<dots> \<le> r" by (rule rhalf)
  also have "r \<le> r * 100" using rhalf xpos by simp
  finally have b1: "pow2 (- 1022) \<le> r * 100" .
  have "x * (1 + u) \<le> 1 * (1 + 1 / 2)" using x1 u xpos by (intro mult_mono) simp_all
  with rhi have "r \<le> 2" by simp
  then have "r * 100 \<le> 200" by simp
  moreover have "(200::rat) < pow2 1023" by (simp add: pow2_def)
  ultimately have b2: "r * 100 < pow2 1023" by simp
  obtain p where p: "roundDouble (r * 100) = Num p" and pe: "\<bar>p - r * 100\<bar> \<le> r * 100 * u"
    using roundDouble_relative_error [OF b1 b2] by (auto simp add: u_def)
  have res: "jsMul (jsDiv (Number (int d)) (Number (int n))) (Num 100) = Num p"
    using n r p by (simp add: Nd Nn x_def [symmetric])
  have "\<bar>p - 100 * x\<bar> \<le> \<bar>p - r * 100\<bar> + \<bar>r * 100 - 100 * x\<bar>" by simp
  also have "\<bar>r * 100 - 100 * x\<bar> = 100 * \<bar>r - x\<bar>" by (simp add: abs_if)
  also have "\<bar>p - r * 100\<bar> + 100 * \<bar>r - x\<bar> \<le> r * 100 * u + 100 * (x * u)"
    using pe re by simp
  also have "\<dots> \<le> x * (1 + u) * 100 * u + 100 * (x * u)"
    using rhi u by (simp add: mult_right_mono)
  also have "\<dots> = 100 * x * (2 * u + u * u)" by (simp add: algebra_simps)
  also have "2 * u + u * u = pow2 (- 52) + pow2 (- 106)"
    by (simp only: u_def pow2_double pow2_square)
  finally have "\<bar>p - 100 * x\<bar> \<le> 100 * x * (pow2 (- 52) + pow2 (- 106))" .
  with res show ?thesis by (auto simp add: x_def)
qed

text \<open>
  C8. The deployments counted are exactly the transactions whose \<open>to\<close> is null or the
  empty string. The percentage is 0 for the empty input and otherwise their number
  divided by the length of the input, then multiplied by 100, in doubles: each of the
  two operations rounds, so that the result is within \<open>2 ^ - 52 + 2 ^ - 106\<close>, relatively,
  of 100 times the number over the length.
\<close>

theorem computeContractDeployments_percentage:
  "totalDeployments (computeContractDeployments txs)
     = length (filter (\<lambda>tx. tx_to tx = None \<or> tx_to tx = Some []) txs)
   \<and> deploymentPercentage (computeContractDeployments txs)
     = (if txs = [] then Num 0
        else jsMul (jsDiv (Number (int (totalDeployments (computeContractDeployments txs))))
                      (Number (int (length txs))))
               (Num 100))
   \<and> (txs \<noteq> [] \<and> length txs \<le> 2 ^ 53 \<longrightarrow>
        (\<exists>p. deploymentPercentage (computeContractDeployments txs) = Num p
           \<and> \<bar>p - 100 * of_nat (totalDeployments (computeContractDeployments txs))
                     / of_nat (length txs)\<bar>
               \<le> 100 * of_nat (totalDeployments (computeContractDeployments txs))
                     / of_nat (length txs) * (pow2 (- 52) + pow2 (- 106))))"
proof (intro conjI impI)
  show "totalDeployments (computeContractDeployments txs)
     = length (filter (\<lambda>tx. tx_to tx = None \<or> tx_to tx = Some []) txs)"
    by (simp add: computeContractDeployments_def isDeployment_eq Let_def)
  show pct: "deploymentPercentage (computeContractDeployments txs)
     = (if txs = [] then Num 0
        else jsMul (jsDiv (Number (int (totalDeployments (computeContractDeployments txs))))
                      (Number (int (length txs))))
               (Num 100))"
    by (simp add: computeContractDeployments_def Let_def)
  assume ne: "txs \<noteq> [] \<and> length txs \<le> 2 ^ 53"
  define d where "d = totalDeployments (computeContractDeployments txs)"
  have dn: "d \<le> length txs" by (simp add: d_def computeContractDeployments_def Let_def)
  show "\<exists>p. deploymentPercentage (computeContractDeployments txs) = Num p
           \<and> \<bar>p - 100 * of_nat (totalDeployments (computeContractDeployments txs))
                     / of_nat (length txs)\<bar>
               \<le> 100 * of_nat (totalDeployments (computeContractDeployments txs))
                     / of_nat (length txs) * (pow2 (- 52) + pow2 (- 106))"
  proof (cases "d = 0")
    case True
    have "Number 0 = Num 0" by (simp add: Number_def roundDouble_def)
    moreover have "Number (int (length txs)) = Num (of_nat (length txs))"
      using ne by (simp add: Number_exact)
    moreover have "roundDouble 0 = Num 0" by (simp add: roundDouble_def)
    ultimately have "deploymentPercentage (computeContractDeployments txs) = Num 0"
      using ne True unfolding pct d_def [symmetric] by simp
    then show ?thesis using True by (simp add: d_def [symmetric])
  next
    case False
    then have "0 < d" by simp
    from percentage_error [OF this dn] ne show ?thesis
      unfolding pct d_def [symmetric] by simp
  qed
qed

lemma deploymentTxs_result:
  "computeContractDeployments deploymentTxs
     = \<lparr> totalDeployments = 2,
         deploymentPercentage = Num (2345624805922133 / 35184372088832) \<rparr>"
proof -
  have "Number 2 = Num 2" "Number 3 = Num 3" by (simp_all add: Number_exact)
  moreover have "roundDouble (150119987579016525 / 2251799813685248)
      = Num (2345624805922133 / 35184372088832)"
    by (subst roundDouble_finite [where e = 6]) (simp_all add: pow2_def roundHalfEven_def Let_def)
  ultimately show ?thesis
    by (simp add: computeContractDeployments_def isDeployment_eq Let_def tx0_def deploymentTxs_def
          ex_two_thirds)
qed

theorem computeContractDeployments_percentage_witness:
  "deploymentTxs \<noteq> [] \<and> length deploymentTxs \<le> 2 ^ 53
   \<and> computeContractDeployments deploymentTxs
       = \<lparr> totalDeployments = 2,
           deploymentPercentage = Num (2345624805922133 / 35184372088832) \<rparr>
   \<and> \<bar>2345624805922133 / 35184372088832 - 100 * 2 / (3 :: rat)\<bar>
       \<le> 100 * 2 / 3 * (pow2 (- 52) + pow2 (- 106))"
proof -
  have len: "length deploymentTxs = 3" "deploymentTxs \<noteq> []" by (simp_all add: deploymentTxs_def)
  from computeContractDeployments_percentage [of deploymentTxs] len
  show ?thesis by (simp add: deploymentTxs_result pow2_def)
qed

text \<open>The percentage of 2 deployments among 3 transactions is neither \<open>200 / 3\<close> nor the
  double nearest to it, which is also what \<open>100 * 2 / 3\<close> is in doubles.\<close>

theorem computeContractDeployments_rounding_counterexample:
  "totalDeployments (computeContractDeployments deploymentTxs) = 2
   \<and> length deploymentTxs = 3
   \<and> deploymentPercentage (computeContractDeployments deploymentTxs)
       = Num (2345624805922133 / 35184372088832)
   \<and> Num (2345624805922133 / 35184372088832) \<noteq> Num (100 * 2 / 3)
   \<and> roundDouble (100 * 2 / 3) = Num (4691249611844267 / 70368744177664)
   \<and> jsDiv (jsMul (Num 100) (Number 2)) (Number 3) = Num (4691249611844267 / 70368744177664)"
proof -
  have n: "Number 2 = Num 2" "Number 3 = Num 3" by (simp_all add: Number_exact)
  have r200: "roundDouble 200 = Num 200"
    using roundDouble_nat_exact [of 200] by simp
  have r: "roundDouble (200 / 3) = Num (4691249611844267 / 70368744177664)"
    by (subst roundDouble_finite [where e = 6]) (simp_all add: pow2_def roundHalfEven_def Let_def)
  show ?thesis
    by (simp add: deploymentTxs_result n r r200) (simp add: deploymentTxs_def)
qed

subsection \<open>Unparsable amounts\<close>

text \<open>
  C1. Totality on amounts that cannot be parsed: a value that is not a literal of an
  integer is taken as 0 by \<open>computeTransactionValueStats\<close>, which catches the
  SyntaxError of \<open>BigInt\<close>; a gas price that is not one makes
  \<open>computeAverageGasPrice\<close> throw that SyntaxError, since it does not catch it.
\<close>

theorem computeAverageGasPrice_unparsable_raises:
  "computeAverageGasPrice [tx0\<lparr> tx_gas_price := ''abc'' \<rparr>] = Inl SyntaxError
   \<and> computeTransactionValueStats [tx0\<lparr> tx_value := ''abc'' \<rparr>]
       = Inr \<lparr> totalValueEth = Num 0, averageValueEth = Num 0, minValueEth = Num 0,
               maxValueEth = Num 0, val_totalTransactions = 1 \<rparr>"
  by (simp add: computeAverageGasPrice_def computeTransactionValueStats_def valueOrZero_def
        tx0_def BigInt_abc)

text \<open>
  In general \<open>computeAverageGasPrice\<close> returns exactly when \<open>BigInt\<close> reads every gas
  price (or there is no transaction).
\<close>

lemma computeAverageGasPrice_returns:
  "(\<exists>g. computeAverageGasPrice txs = Inr g)
     \<longleftrightarrow> (\<forall>tx \<in> set txs. \<exists>p. BigInt (orZero (tx_gas_price tx)) = Inr p)"
proof (cases "mapThrow (\<lambda>tx. BigInt (orZero (tx_gas_price tx))) txs")
  case (Inl e)
  then have "\<not> (\<exists>ys. mapThrow (\<lambda>tx. BigInt (orZero (tx_gas_price tx))) txs = Inr ys)"
    by simp
  then have no: "\<not> (\<forall>tx \<in> set txs. \<exists>p. BigInt (orZero (tx_gas_price tx)) = Inr p)"
    using mapThrow_returns [of "\<lambda>tx. BigInt (orZero (tx_gas_price tx))" txs] by blast
  then have "txs \<noteq> []" by auto
  with Inl have "computeAverageGasPrice txs = Inl e"
    by (simp add: computeAverageGasPrice_def)
  with no show ?thesis by simp
next
  case (Inr prices)
  then have "\<exists>ys. mapThrow (\<lambda>tx. BigInt (orZero (tx_gas_price tx))) txs = Inr ys"
    by simp
  then have all: "\<forall>tx \<in> set txs. \<exists>p. BigInt (orZero (tx_gas_price tx)) = Inr p"
    using mapThrow_returns [of "\<lambda>tx. BigInt (orZero (tx_gas_price tx))" txs] by blast
  have "\<exists>g. computeAverageGasPrice txs = Inr g"
    using Inr
    by (cases "txs = []")
       (auto simp add: computeAverageGasPrice_def bigintDiv_def Let_def split: sum.splits)
  with all show ?thesis by simp
qed

subsection \<open>Gas price and value statistics\<close>

lemma foldl_add_sum: "foldl (\<lambda>sum price. sum + price) a xs = a + sum_list (xs :: int list)"
  by (induction xs arbitrary: a) auto

lemma reduce_sum: "reduce (\<lambda>sum price. sum + price) xs 0 = sum_list (xs :: int list)"
  by (simp add: reduce_def foldl_add_sum)

lemma foldl_min: "foldl (\<lambda>m p. if p < m then p else m) a xs = Min (insert a (set (xs :: int list)))"
proof (induction xs arbitrary: a)
  case Nil
  then show ?case by simp
next
  case (Cons x xs)
  have "(if x < a then x else a) = min x a" by (simp add: min_def)
  then show ?case using Cons
    by (cases "xs = []") (simp_all add: min.commute min.left_commute min.assoc)
qed

lemma foldl_max: "foldl (\<lambda>m p. if p > m then p else m) a xs = Max (insert a (set (xs :: int list)))"
proof (induction xs arbitrary: a)
  case Nil
  then show ?case by simp
next
  case (Cons x xs)
  have "(if x > a then x else a) = max x a" by (simp add: max_def)
  then show ?case using Cons
    by (cases "xs = []") (simp_all add: max.commute max.left_commute max.assoc)
qed

lemma reduce_min: "xs \<noteq> [] \<Longrightarrow> reduce (\<lambda>m p. if p < m then p else m) xs (xs ! 0) = Min (set (xs :: int list))"
  by (cases xs) (simp_all add: reduce_def foldl_min insert_absorb)

lemma reduce_max: "xs \<noteq> [] \<Longrightarrow> reduce (\<lambda>m p. if p > m then p else m) xs (xs ! 0) = Max (set (xs :: int list))"
  by (cases xs) (simp_all add: reduce_def foldl_max insert_absorb)

lemma sum_list_pos: "\<forall>x \<in> set xs. 0 < x \<Longrightarrow> 0 \<le> sum_list (xs :: int list)"
  by (induction xs) auto

lemma bigintDiv_average:
  assumes "xs \<noteq> []" "\<forall>x \<in> set xs. 0 < (x :: int)"
  shows "bigintDiv (sum_list xs) (int (length xs)) = Inr (sum_list xs div int (length xs))"
proof -
  have "0 \<le> sum_list xs" using assms(2) by (rule sum_list_pos)
  moreover have "0 < int (length xs)" using assms(1) by simp
  ultimately show ?thesis
    by (cases "sum_list xs = 0") (simp_all add: bigintDiv_def)
qed

lemma gas_general:
  assumes "mapThrow (\<lambda>tx. BigInt (orZero (tx_gas_price tx))) txs = Inr prices"
  shows "computeAverageGasPrice txs =
     (let ps = filter (\<lambda>p. p > 0) prices in
      if ps = [] then Inr \<lparr> averageGasPriceGwei = Num 0, minGasPriceGwei = Num 0,
              maxGasPriceGwei = Num 0, gas_totalTransactions = length txs \<rparr>
      else Inr \<lparr> averageGasPriceGwei = weiToGwei (sum_list ps div int (length ps)),
                 minGasPriceGwei = weiToGwei (Min (set ps)), maxGasPriceGwei = weiToGwei (Max (set ps)),
                 gas_totalTransactions = length txs \<rparr>)"
proof (cases "txs = []")
  case True
  with assms show ?thesis by (simp add: computeAverageGasPrice_def)
next
  case False
  define ps where "ps = filter (\<lambda>p. p > 0) prices"
  show ?thesis
  proof (cases "ps = []")
    case True
    with False assms show ?thesis by (simp add: computeAverageGasPrice_def ps_def)
  next
    case ne: False
    have pos: "\<forall>x \<in> set ps. 0 < x" by (simp add: ps_def)
    show ?thesis using False assms ne
      by (simp add: computeAverageGasPrice_def Let_def ps_def[symmetric] reduce_sum
            bigintDiv_average[OF ne pos] reduce_min reduce_max)
  qed
qed

lemma value_general:
  "computeTransactionValueStats txs =
     (let vs = filter (\<lambda>v. v > 0) (map valueOrZero txs) in
      if vs = [] then Inr \<lparr> totalValueEth = Num 0, averageValueEth = Num 0, minValueEth = Num 0,
              maxValueEth = Num 0, val_totalTransactions = length txs \<rparr>
      else Inr \<lparr> totalValueEth = weiToEth (sum_list vs), 
                 averageValueEth = weiToEth (sum_list vs div int (length vs)),
                 minValueEth = weiToEth (Min (set vs)), maxValueEth = weiToEth (Max (set vs)),
                 val_totalTransactions = length txs \<rparr>)"
proof (cases "txs = []")
  case True
  then show ?thesis by (simp add: computeTransactionValueStats_def)
next
  case False
  define vs where "vs = filter (\<lambda>v. v > 0) (map valueOrZero txs)"
  show ?thesis
  proof (cases "vs = []")
    case True
    with False show ?thesis by (simp add: computeTransactionValueStats_def vs_def)
  next
    case ne: False
    have pos: "\<forall>x \<in> set vs. 0 < x" by (simp add: vs_def)
    show ?thesis using False ne
      by (simp add: computeTransactionValueStats_def Let_def vs_def[symmetric] reduce_sum
            bigintDiv_average[OF ne pos] reduce_min reduce_max)
  qed
qed



text \<open>
  C3. With no strictly positive amount, \<open>computeTransactionValueStats\<close> returns zeros
  with the count of the whole input, also when a value cannot be parsed, and so does
  \<open>computeAverageGasPrice\<close> when every gas price can be parsed; a gas price that cannot
  be parsed, next to gas prices that are all 0, makes it throw the SyntaxError of
  \<open>BigInt\<close> instead of returning zeros with the count 2.
\<close>

theorem computeAverageGasPrice_no_positive_raises:
  "computeAverageGasPrice [tx0, tx0\<lparr> tx_gas_price := ''abc'' \<rparr>] = Inl SyntaxError
   \<and> computeAverageGasPrice [tx0, tx0]
       = Inr \<lparr> averageGasPriceGwei = Num 0, minGasPriceGwei = Num 0,
               maxGasPriceGwei = Num 0, gas_totalTransactions = 2 \<rparr>
   \<and> computeTransactionValueStats [tx0, tx0\<lparr> tx_value := ''abc'' \<rparr>]
       = Inr \<lparr> totalValueEth = Num 0, averageValueEth = Num 0, minValueEth = Num 0,
               maxValueEth = Num 0, val_totalTransactions = 2 \<rparr>"
  by (simp add: computeAverageGasPrice_def computeTransactionValueStats_def valueOrZero_def
        tx0_def BigInt_abc BigInt_0)


text \<open>
  The conversion to display units rounds to a double: one wei more than an ether is
  shown as one ether.
\<close>

lemma weiToEth_rounds: "weiToEth (10 ^ 18 + 1) = Num 1"
proof -
  have "roundDouble (10 ^ 18 + 1) = Num (10 ^ 18)"
    by (subst roundDouble_finite [where e = 59])
       (simp_all add: pow2_def roundHalfEven_def Let_def)
  moreover have "roundDouble 1 = Num 1" using roundDouble_nat_exact [of 1] by simp
  ultimately show ?thesis by (simp add: weiToEth_def Number_def)
qed

subsection \<open>Retry with backoff\<close>

text \<open>
  C10. With \<open>maxRetries\<close> at most 0 the operation is not invoked, nothing is waited
  for, and the failure is the error \<open>Unknown error occurred\<close>.
\<close>

theorem retryWithBackoff_no_attempts:
  "maxRetries \<le> 0 \<Longrightarrow>
     retryWithBackoff fn maxRetries initialDelay w
       = (Inl (Error ''Unknown error occurred''), w)"
  by (simp add: retryWithBackoff_def)

theorem retryWithBackoff_no_attempts_witness:
  "(0::int) \<le> 0
   \<and> retryWithBackoff rejectBoom 0 1000 world0
       = (Inl (Error ''Unknown error occurred''), world0)"
  using retryWithBackoff_no_attempts [of 0 rejectBoom 1000 world0] by simp

subsection \<open>Active addresses\<close>

lemma set_setAdd: "set (setAdd x s) = insert x (set s)"
  by (auto simp add: setAdd_def)

lemma distinct_setAdd: "distinct s \<Longrightarrow> distinct (setAdd x s)"
  by (simp add: setAdd_def)

lemma senderSet_Nil: "senderSet [] = {}"
  by (simp add: senderSet_def)

lemma receiverSet_Nil: "receiverSet [] = {}"
  by (simp add: receiverSet_def)

lemma senderSet_snoc:
  "senderSet (txs @ [tx]) =
     (if tx_from tx \<noteq> [] then insert (toLowerCase (tx_from tx)) (senderSet txs) else senderSet txs)"
  by (auto simp add: senderSet_def)

lemma receiverSet_snoc:
  "receiverSet (txs @ [tx]) =
     (case tx_to tx of
        None \<Rightarrow> receiverSet txs
      | Some a \<Rightarrow> if a \<noteq> [] then insert (toLowerCase a) (receiverSet txs) else receiverSet txs)"
  by (auto simp add: receiverSet_def split: option.splits)

lemma activeStep_sets:
  assumes "distinct (senders st)" "distinct (receivers st)" "distinct (allAddresses st)"
    "set (senders st) = senderSet txs" "set (receivers st) = receiverSet txs"
    "set (allAddresses st) = senderSet txs \<union> receiverSet txs"
  shows "distinct (senders (activeStep st tx)) \<and> distinct (receivers (activeStep st tx))
     \<and> distinct (allAddresses (activeStep st tx))
     \<and> set (senders (activeStep st tx)) = senderSet (txs @ [tx])
     \<and> set (receivers (activeStep st tx)) = receiverSet (txs @ [tx])
     \<and> set (allAddresses (activeStep st tx)) = senderSet (txs @ [tx]) \<union> receiverSet (txs @ [tx])"
  using assms
  by (auto simp add: activeStep_def Let_def senderSet_snoc receiverSet_snoc set_setAdd
        distinct_setAdd split: option.splits)

lemma active_invariant:
  "let st = foldl activeStep \<lparr> senders = [], receivers = [], allAddresses = [] \<rparr> txs in
     distinct (senders st) \<and> distinct (receivers st) \<and> distinct (allAddresses st)
     \<and> set (senders st) = senderSet txs \<and> set (receivers st) = receiverSet txs
     \<and> set (allAddresses st) = senderSet txs \<union> receiverSet txs"
proof (induction txs rule: rev_induct)
  case Nil
  show ?case by (simp add: senderSet_Nil receiverSet_Nil)
next
  case (snoc tx txs)
  then show ?case
    unfolding Let_def foldl_append foldl_Cons foldl_Nil
    by (intro activeStep_sets) simp_all
qed

text \<open>
  C7. The three numbers reported are the cardinalities of the set of the lowercased
  non-empty senders, of the set of the lowercased non-empty (and non-null) receivers,
  and of their union. A transaction with an empty sender, or with an empty or null
  receiver, adds nothing for that field, and two spellings of one address that differ
  in case are one element.
\<close>

theorem computeActiveAddresses_cardinalities:
  "uniqueSenders (computeActiveAddresses txs)
     = card {toLowerCase (tx_from tx) | tx. tx \<in> set txs \<and> tx_from tx \<noteq> []}
   \<and> uniqueReceivers (computeActiveAddresses txs)
     = card {toLowerCase a | a tx. tx \<in> set txs \<and> tx_to tx = Some a \<and> a \<noteq> []}
   \<and> uniqueAddresses (computeActiveAddresses txs)
     = card ({toLowerCase (tx_from tx) | tx. tx \<in> set txs \<and> tx_from tx \<noteq> []}
            \<union> {toLowerCase a | a tx. tx \<in> set txs \<and> tx_to tx = Some a \<and> a \<noteq> []})"
  using active_invariant [of txs]
  by (simp add: computeActiveAddresses_def Let_def distinct_card [symmetric]
        senderSet_def receiverSet_def)

lemma lower_0xAB: "toLowerCase ''0xAB'' = ''0xab''" 
  by (simp add: toLowerCase_def toLowerChar_def)

theorem computeActiveAddresses_cardinalities_witness:
  "computeActiveAddresses mixedCaseTxs
     = \<lparr> uniqueAddresses = 2, uniqueSenders = 1, uniqueReceivers = 1 \<rparr>
   \<and> card {toLowerCase (tx_from tx) | tx. tx \<in> set mixedCaseTxs \<and> tx_from tx \<noteq> []} = 1
   \<and> card ({toLowerCase (tx_from tx) | tx. tx \<in> set mixedCaseTxs \<and> tx_from tx \<noteq> []}
            \<union> {toLowerCase a | a tx. tx \<in> set mixedCaseTxs \<and> tx_to tx = Some a \<and> a \<noteq> []}) = 2"
proof -
  have eval: "computeActiveAddresses mixedCaseTxs
     = \<lparr> uniqueAddresses = 2, uniqueSenders = 1, uniqueReceivers = 1 \<rparr>"
    by (simp add: computeActiveAddresses_def activeStep_def setAdd_def tx0_def mixedCaseTxs_def
          toLowerCase_def toLowerChar_def Let_def)
  from computeActiveAddresses_cardinalities [of mixedCaseTxs] show ?thesis
    unfolding eval by simp
qed

subsection \<open>Top addresses\<close>

lemma insertBy_insort_key:
  "insertBy (\<lambda>a b. f a - f b) x ys = insort_key (f :: 'a \<Rightarrow> int) x ys"
  by (induction ys) auto

lemma sortBy_sort_key: "sortBy (\<lambda>a b. f a - f b) xs = sort_key (f :: 'a \<Rightarrow> int) xs"
  by (induction xs) (simp_all add: sortBy_def insertBy_insort_key)

lemma sortBy_desc:
  "sortBy (\<lambda>a b. int (snd b) - int (snd a)) xs = sort_key (\<lambda>p. - int (snd p)) xs"
  using sortBy_sort_key [of "\<lambda>p. - int (snd p)" xs] by simp

lemma slice0_take: "0 \<le> limit \<Longrightarrow> slice0 xs limit = take (nat limit) xs"
  by (simp add: slice0_def Let_def min_def)

lemma topStep_fold: "topStep m tx = foldl (\<lambda>m a. countAddress a m) m (txAddresses tx)"
  by (simp add: topStep_def txAddresses_def Let_def split: option.splits)

lemma foldl_topStep:
  "foldl topStep m txs = foldl (\<lambda>m a. countAddress a m) m (addressOccurrences txs)"
  by (induction txs arbitrary: m) (simp_all add: addressOccurrences_def topStep_fold)

lemma firstSeen_Nil: "firstSeen [] = []"
  by (simp add: firstSeen_def)

lemma firstSeen_snoc:
  "firstSeen (xs @ [a]) = (if a \<in> set xs then firstSeen xs else firstSeen xs @ [a])"
  by (simp add: firstSeen_def)

lemma set_firstSeen: "set (firstSeen xs) = set xs"
  by (simp add: firstSeen_def)

lemma distinct_firstSeen: "distinct (firstSeen xs)"
  by (simp add: firstSeen_def)

lemma mapGet_table:
  "mapGet (map (\<lambda>x. (x, g x)) xs) a = (if a \<in> set xs then Some (g a) else None)"
  by (induction xs) (auto simp add: mapGet_def)

lemma mapSet_table:
  "distinct xs \<Longrightarrow> mapSet a v (map (\<lambda>x. (x, g x)) xs) =
     (if a \<in> set xs then map (\<lambda>x. (x, if x = a then v else g x)) xs
      else map (\<lambda>x. (x, g x)) xs @ [(a, v)])"
  by (induction xs) auto

lemma count_list_snoc: "count_list (xs @ [a]) x = count_list xs x + (if x = a then 1 else 0)"
  by (induction xs) auto

lemma countAddress_table:
  "countAddress a (countTable occ) = countTable (occ @ [a])"
proof (cases "a \<in> set occ")
  case True
  then show ?thesis
    by (simp add: countAddress_def countTable_def mapGet_table mapSet_table distinct_firstSeen set_firstSeen
          firstSeen_snoc count_list_snoc)
next
  case False
  then have "count_list occ a = 0" by (simp add: count_list_0_iff)
  with False show ?thesis
    by (auto simp add: countAddress_def countTable_def mapGet_table mapSet_table distinct_firstSeen set_firstSeen
          firstSeen_snoc count_list_snoc)
qed

lemma foldl_countAddress: "foldl (\<lambda>m a. countAddress a m) [] occ = countTable occ"
proof (induction occ rule: rev_induct)
  case Nil
  show ?case by (simp add: countTable_def firstSeen_Nil)
next
  case (snoc a occ)
  then show ?case by (simp add: countAddress_table)
qed

lemma computeTopAddresses_table:
  "0 \<le> limit \<Longrightarrow> computeTopAddresses txs limit =
     map (\<lambda>(a, c). \<lparr> address = a, transactionCount = c \<rparr>)
       (take (nat limit) (sort_key (\<lambda>p. - int (snd p)) (countTable (addressOccurrences txs))))"
  by (simp add: computeTopAddresses_def foldl_topStep foldl_countAddress sortBy_desc slice0_take)

text \<open>
  C6. Every transaction counts once for its lowercased sender and once for its
  lowercased receiver, each if not empty (twice for an address that is both). For a
  limit that is not negative, the result is the first \<open>limit\<close> entries of the table of
  counts, kept in order of first appearance and sorted by descending count with a
  stable sort: a permutation of the table, descending, in which the entries of equal
  count keep the order of the table. All entries are returned when there are at most
  \<open>limit\<close>, and the default limit is 5.
\<close>

theorem computeTopAddresses_ranking:
  "0 \<le> limit \<Longrightarrow>
     (let occ = addressOccurrences txs;
          table = map (\<lambda>a. (a, count_list occ a)) (firstSeen occ);
          ranked = sort_key (\<lambda>p. - int (snd p)) table
      in computeTopAddresses txs limit
           = map (\<lambda>(a, c). \<lparr> address = a, transactionCount = c \<rparr>) (take (nat limit) ranked)
         \<and> mset ranked = mset table
         \<and> sorted (map (\<lambda>p. - int (snd p)) ranked)
         \<and> (\<forall>k. filter (\<lambda>p. snd p = k) ranked = filter (\<lambda>p. snd p = k) table)
         \<and> (length table \<le> nat limit \<longrightarrow>
              computeTopAddresses txs limit
                = map (\<lambda>(a, c). \<lparr> address = a, transactionCount = c \<rparr>) ranked)
         \<and> computeTopAddressesDefault txs = computeTopAddresses txs 5)"
proof -
  assume limit: "0 \<le> limit"
  define table where "table = countTable (addressOccurrences txs)"
  define ranked where "ranked = sort_key (\<lambda>p. - int (snd p)) table"
  have res: "computeTopAddresses txs limit
      = map (\<lambda>(a, c). \<lparr> address = a, transactionCount = c \<rparr>) (take (nat limit) ranked)"
    using limit by (simp add: computeTopAddresses_table table_def ranked_def)
  have stable: "filter (\<lambda>p. snd p = k) ranked = filter (\<lambda>p. snd p = k) table" for k
  proof -
    have "filter (\<lambda>p. - int (snd p) = - int k) ranked = filter (\<lambda>p. - int (snd p) = - int k) table"
      unfolding ranked_def by (rule sort_key_stable)
    then show ?thesis by simp
  qed
  have all: "length table \<le> nat limit \<Longrightarrow> take (nat limit) ranked = ranked"
    by (simp add: ranked_def)
  show ?thesis
    unfolding Let_def countTable_def [symmetric] table_def [symmetric] ranked_def [symmetric]
    using res stable all by (simp add: ranked_def computeTopAddressesDefault_def)
qed

lemma tie_occurrences: "addressOccurrences tieTxs = [''0xb'', ''0xa'', ''0xc'', ''0xc'']"
  by (simp add: addressOccurrences_def txAddresses_def tieTxs_def tx0_def toLowerCase_def
        toLowerChar_def)

theorem computeTopAddresses_ranking_witness:
  "(0 :: int) \<le> 2
   \<and> map (\<lambda>a. (a, count_list (addressOccurrences tieTxs) a)) (firstSeen (addressOccurrences tieTxs))
       = [(''0xb'', 1), (''0xa'', 1), (''0xc'', 2)]
   \<and> computeTopAddresses tieTxs 2
       = [\<lparr> address = ''0xc'', transactionCount = 2 \<rparr>,
          \<lparr> address = ''0xb'', transactionCount = 1 \<rparr>]"
  using computeTopAddresses_ranking [of 2 tieTxs]
  by (simp add: tie_occurrences firstSeen_def Let_def)

subsection \<open>Block times\<close>

declare blockTimesFrom.simps [simp del]

lemma blockTimesFrom_eq:
  "blockTimesFrom bs i acc =
     acc @ map (\<lambda>i. jsSub (parseInt (blk_timestamp (bs ! i)))
                         (parseInt (blk_timestamp (bs ! (i - 1))))) [i ..< length bs]"
proof (induction bs i acc rule: blockTimesFrom.induct)
  case (1 sortedBlocks i blockTimes)
  show ?case
  proof (cases "i < length sortedBlocks")
    case True
    with "1" show ?thesis
      by (subst blockTimesFrom.simps) (simp add: Let_def upt_conv_Cons)
  next
    case False
    then show ?thesis by (subst blockTimesFrom.simps) simp
  qed
qed

lemma blockTimes_deltas: "blockTimesFrom bs (Suc 0) [] = timestampDeltas bs"
  by (simp add: blockTimesFrom_eq timestampDeltas_def)

lemma length_timestampDeltas: "length (timestampDeltas bs) = length bs - 1"
  by (simp add: timestampDeltas_def)

lemma sortBy_number: "sortBy (\<lambda>a b. blk_number a - blk_number b) bs = sort_key blk_number bs"
  by (rule sortBy_sort_key)

text \<open>The order of the numbers that are not NaN is linear.\<close>

lemma jsLess_irrefl: "\<not> jsLess a a"
  by (cases a) simp_all

lemma jsLess_trans: "jsLess a b \<Longrightarrow> jsLess b c \<Longrightarrow> jsLess a c"
  by (cases a; cases b; cases c) simp_all

lemma jsLess_asym: "jsLess a b \<Longrightarrow> \<not> jsLess b a"
  by (cases a; cases b) simp_all

lemma jsLess_below: "\<not> jsLess d a \<Longrightarrow> jsLess b a \<Longrightarrow> d \<noteq> NaN \<Longrightarrow> a \<noteq> NaN \<Longrightarrow> \<not> jsLess d b"
  by (cases a; cases b; cases d) simp_all

lemma jsLess_above: "\<not> jsLess a d \<Longrightarrow> jsLess a b \<Longrightarrow> d \<noteq> NaN \<Longrightarrow> a \<noteq> NaN \<Longrightarrow> \<not> jsLess b d"
  by (cases a; cases b; cases d) simp_all

lemma foldl_jsMin2_NaN: "a = NaN \<or> NaN \<in> set xs \<Longrightarrow> foldl jsMin2 a xs = NaN"
proof (induction xs arbitrary: a)
  case Nil
  then show ?case by simp
next
  case (Cons x xs)
  then show ?case by (cases "a = NaN \<or> x = NaN") (auto simp add: jsMin2_def)
qed

lemma foldl_jsMax2_NaN: "a = NaN \<or> NaN \<in> set xs \<Longrightarrow> foldl jsMax2 a xs = NaN"
proof (induction xs arbitrary: a)
  case Nil
  then show ?case by simp
next
  case (Cons x xs)
  then show ?case by (cases "a = NaN \<or> x = NaN") (auto simp add: jsMax2_def)
qed

lemma foldl_jsMin2_least:
  "a \<noteq> NaN \<Longrightarrow> NaN \<notin> set xs \<Longrightarrow>
     foldl jsMin2 a xs \<in> insert a (set xs)
     \<and> (\<forall>d \<in> insert a (set xs). \<not> jsLess d (foldl jsMin2 a xs))"
proof (induction xs arbitrary: a)
  case Nil
  then show ?case by (simp add: jsLess_irrefl)
next
  case (Cons x xs)
  then have x: "x \<noteq> NaN" and xs: "NaN \<notin> set xs" by auto
  show ?case
  proof (cases "jsLess x a")
    case True
    then have step: "jsMin2 a x = x" using Cons.prems x by (simp add: jsMin2_def)
    from Cons.IH [OF x xs]
    have m: "foldl jsMin2 x xs \<in> insert x (set xs)"
      and le: "\<forall>d \<in> insert x (set xs). \<not> jsLess d (foldl jsMin2 x xs)" by simp_all
    have "\<not> jsLess a (foldl jsMin2 x xs)"
    proof
      assume "jsLess a (foldl jsMin2 x xs)"
      with True have "jsLess x (foldl jsMin2 x xs)" by (rule jsLess_trans)
      with le show False by simp
    qed
    with m le show ?thesis by (simp add: step)
  next
    case False
    then have step: "jsMin2 a x = a" using Cons.prems x by (simp add: jsMin2_def)
    from Cons.IH [OF Cons.prems(1) xs]
    have m: "foldl jsMin2 a xs \<in> insert a (set xs)"
      and le: "\<forall>d \<in> insert a (set xs). \<not> jsLess d (foldl jsMin2 a xs)" by simp_all
    have "\<not> jsLess x (foldl jsMin2 a xs)"
    proof
      assume lt: "jsLess x (foldl jsMin2 a xs)"
      from le have "\<not> jsLess a (foldl jsMin2 a xs)" by simp
      moreover have "foldl jsMin2 a xs \<noteq> NaN" using m Cons.prems xs by auto
      ultimately show False using lt False Cons.prems(1) x
        by (cases a; cases x; cases "foldl jsMin2 a xs") simp_all
    qed
    with m le show ?thesis by (auto simp add: step)
  qed
qed

lemma foldl_jsMax2_greatest:
  "a \<noteq> NaN \<Longrightarrow> NaN \<notin> set xs \<Longrightarrow>
     foldl jsMax2 a xs \<in> insert a (set xs)
     \<and> (\<forall>d \<in> insert a (set xs). \<not> jsLess (foldl jsMax2 a xs) d)"
proof (induction xs arbitrary: a)
  case Nil
  then show ?case by (simp add: jsLess_irrefl)
next
  case (Cons x xs)
  then have x: "x \<noteq> NaN" and xs: "NaN \<notin> set xs" by auto
  show ?case
  proof (cases "jsLess a x")
    case True
    then have step: "jsMax2 a x = x" using Cons.prems x by (simp add: jsMax2_def)
    from Cons.IH [OF x xs]
    have m: "foldl jsMax2 x xs \<in> insert x (set xs)"
      and le: "\<forall>d \<in> insert x (set xs). \<not> jsLess (foldl jsMax2 x xs) d" by simp_all
    have "\<not> jsLess (foldl jsMax2 x xs) a"
    proof
      assume "jsLess (foldl jsMax2 x xs) a"
      from this True have "jsLess (foldl jsMax2 x xs) x" by (rule jsLess_trans)
      with le show False by simp
    qed
    with m le show ?thesis by (simp add: step)
  next
    case False
    then have step: "jsMax2 a x = a" using Cons.prems x by (simp add: jsMax2_def)
    from Cons.IH [OF Cons.prems(1) xs]
    have m: "foldl jsMax2 a xs \<in> insert a (set xs)"
      and le: "\<forall>d \<in> insert a (set xs). \<not> jsLess (foldl jsMax2 a xs) d" by simp_all
    have "\<not> jsLess (foldl jsMax2 a xs) x"
    proof
      assume lt: "jsLess (foldl jsMax2 a xs) x"
      from le have "\<not> jsLess (foldl jsMax2 a xs) a" by simp
      moreover have "foldl jsMax2 a xs \<noteq> NaN" using m Cons.prems xs by auto
      ultimately show False using lt False Cons.prems(1) x
        by (cases a; cases x; cases "foldl jsMax2 a xs") simp_all
    qed
    with m le show ?thesis by (auto simp add: step)
  qed
qed

lemma MathMin_least:
  assumes "xs \<noteq> []" "NaN \<notin> set xs"
  shows "foldl jsMin2 PosInf xs \<in> set xs \<and> (\<forall>d \<in> set xs. \<not> jsLess d (foldl jsMin2 PosInf xs))"
proof -
  define m where "m = foldl jsMin2 PosInf xs"
  have m: "m \<in> insert PosInf (set xs)" and le: "\<forall>d \<in> set xs. \<not> jsLess d m"
    using foldl_jsMin2_least [of PosInf xs] assms(2) by (simp_all add: m_def)
  obtain x where x: "x \<in> set xs" using assms(1) by (cases xs) auto
  have "m \<in> set xs"
  proof (cases "m = PosInf")
    case True
    from le x have "\<not> jsLess x PosInf" by (simp add: True)
    moreover have "x \<noteq> NaN" using x assms(2) by auto
    ultimately have "x = PosInf" by (cases x) simp_all
    with x True show ?thesis by simp
  next
    case False
    with m show ?thesis by simp
  qed
  with le show ?thesis by (simp add: m_def)
qed

lemma MathMax_greatest:
  assumes "xs \<noteq> []" "NaN \<notin> set xs"
  shows "foldl jsMax2 NegInf xs \<in> set xs \<and> (\<forall>d \<in> set xs. \<not> jsLess (foldl jsMax2 NegInf xs) d)"
proof -
  define m where "m = foldl jsMax2 NegInf xs"
  have m: "m \<in> insert NegInf (set xs)" and le: "\<forall>d \<in> set xs. \<not> jsLess m d"
    using foldl_jsMax2_greatest [of NegInf xs] assms(2) by (simp_all add: m_def)
  obtain x where x: "x \<in> set xs" using assms(1) by (cases xs) auto
  have "m \<in> set xs"
  proof (cases "m = NegInf")
    case True
    from le x have "\<not> jsLess NegInf x" by (simp add: True)
    moreover have "x \<noteq> NaN" using x assms(2) by auto
    ultimately have "x = NegInf" by (cases x) simp_all
    with x True show ?thesis by simp
  next
    case False
    with m show ?thesis by simp
  qed
  with le show ?thesis by (simp add: m_def)
qed

lemma computeBlockTimeStats_sorted:
  assumes "2 \<le> length blocks" "length blocks - 1 \<le> maxArguments"
  shows "computeBlockTimeStats maxArguments blocks =
     (let ds = timestampDeltas (sort_key blk_number blocks) in
      Inr \<lparr> averageBlockTimeSeconds = jsDiv (foldl jsAdd (Num 0) ds) (Number (int (length ds))),
            minBlockTimeSeconds = foldl jsMin2 PosInf ds,
            maxBlockTimeSeconds = foldl jsMax2 NegInf ds,
            totalBlocks = length blocks \<rparr>)"
proof -
  define ds where "ds = timestampDeltas (sort_key blk_number blocks)"
  have len: "length ds = length blocks - 1" by (simp add: ds_def length_timestampDeltas)
  with assms have ne: "ds \<noteq> []" and fit: "\<not> maxArguments < length ds" by auto
  show ?thesis
    using assms(1) ne fit
    by (simp add: computeBlockTimeStats_def sortBy_number blockTimes_deltas Let_def
          ds_def [symmetric] reduce_def MathMin_def MathMax_def)
qed

lemma computeBlockTimeStats_throws:
  assumes "2 \<le> length blocks" "maxArguments < length blocks - 1"
  shows "computeBlockTimeStats maxArguments blocks = Inl RangeError"
proof -
  define ds where "ds = timestampDeltas (sort_key blk_number blocks)"
  have len: "length ds = length blocks - 1" by (simp add: ds_def length_timestampDeltas)
  with assms have ne: "ds \<noteq> []" and fit: "maxArguments < length ds" by auto
  show ?thesis
    using assms(1) ne fit
    by (simp add: computeBlockTimeStats_def sortBy_number blockTimes_deltas Let_def
          ds_def [symmetric] reduce_def MathMin_def MathMax_def)
qed

lemma sort_key_number_unique:
  assumes "mset blocks' = mset blocks" "distinct (map blk_number blocks)"
  shows "sort_key blk_number blocks' = sort_key blk_number blocks"
proof (rule sort_key_inj_key_eq)
  show "mset blocks' = mset (sort_key blk_number blocks)" using assms(1) by simp
  have "set blocks' = set blocks" using assms(1) by (rule mset_eq_setD)
  then show "inj_on blk_number (set blocks')" using assms(2) by (simp add: distinct_map)
  show "sorted (map blk_number (sort_key blk_number blocks))" by (rule sorted_sort_key)
qed

lemma computeBlockTimeStats_order:
  assumes "mset blocks' = mset blocks" "distinct (map blk_number blocks)"
  shows "computeBlockTimeStats maxArguments blocks' = computeBlockTimeStats maxArguments blocks"
proof -
  from assms(1) have "size (mset blocks') = size (mset blocks)" by simp
  then have len: "length blocks' = length blocks" by simp
  have s: "sort_key blk_number blocks' = sort_key blk_number blocks"
    using assms by (rule sort_key_number_unique)
  show ?thesis
    unfolding computeBlockTimeStats_def sortBy_number len s ..
qed

text \<open>Integer timestamps of at most 52 bits: every difference and every partial sum is exact.\<close>

lemma jsAdd_int_exact:
  "\<bar>a + b\<bar> \<le> 2 ^ 53 \<Longrightarrow> jsAdd (Num (of_int a)) (Num (of_int b)) = Num (of_int (a + b))"
  using Number_exact [of "a + b"] by (simp add: Number_def)

lemma jsSub_int_exact:
  "\<bar>a - b\<bar> \<le> 2 ^ 53 \<Longrightarrow> jsSub (Num (of_int a)) (Num (of_int b)) = Num (of_int (a - b))"
  using Number_exact [of "a - b"] by (simp add: Number_def jsSub_def)

lemma timestampDeltas_exact:
  assumes "\<forall>b \<in> set bs. parseInt (blk_timestamp b) = Num (of_int (t b)) \<and> \<bar>t b\<bar> \<le> 2 ^ 52"
  shows "timestampDeltas bs = map (\<lambda>d. Num (of_int d)) (consecutiveDifferences (map t bs))"
proof -
  have "jsSub (parseInt (blk_timestamp (bs ! i))) (parseInt (blk_timestamp (bs ! (i - 1))))
          = Num (of_int (map t bs ! i - map t bs ! (i - 1)))"
    if "i \<in> set [1 ..< length bs]" for i
  proof -
    from that have i: "i < length bs" and j: "i - 1 < length bs" by auto
    then have m: "bs ! i \<in> set bs" "bs ! (i - 1) \<in> set bs" by simp_all
    with assms have p: "parseInt (blk_timestamp (bs ! i)) = Num (of_int (t (bs ! i)))"
      "parseInt (blk_timestamp (bs ! (i - 1))) = Num (of_int (t (bs ! (i - 1))))"
      and b: "\<bar>t (bs ! i)\<bar> \<le> 2 ^ 52" "\<bar>t (bs ! (i - 1))\<bar> \<le> 2 ^ 52" by blast+
    from b have "\<bar>t (bs ! i) - t (bs ! (i - 1))\<bar> \<le> 2 ^ 53" by simp
    then show ?thesis using i j unfolding p by (simp add: jsSub_int_exact)
  qed
  then show ?thesis
    by (simp add: timestampDeltas_def consecutiveDifferences_def o_def cong: map_cong)
qed

lemma sum_list_telescope:
  "sum_list (map (\<lambda>i. ts ! i - ts ! (i - 1)) [1 ..< Suc k]) = (ts ! k - ts ! 0 :: int)"
  by (induction k) simp_all

lemma foldl_jsAdd_telescope:
  assumes "\<forall>i < length ts. \<bar>ts ! i\<bar> \<le> (2 :: int) ^ 52" "k < length ts"
  shows "foldl jsAdd (Num 0) (map (\<lambda>i. Num (of_int (ts ! i - ts ! (i - 1)))) [1 ..< Suc k])
           = Num (of_int (ts ! k - ts ! 0))"
  using assms(2)
proof (induction k)
  case 0
  then show ?case by simp
next
  case (Suc k)
  from Suc.prems have k: "k < length ts" and sk: "Suc k < length ts" and z: "0 < length ts"
    by auto
  from assms(1) sk z have "\<bar>ts ! Suc k\<bar> \<le> 2 ^ 52" "\<bar>ts ! 0\<bar> \<le> 2 ^ 52" by blast+
  then have b: "\<bar>(ts ! k - ts ! 0) + (ts ! Suc k - ts ! k)\<bar> \<le> 2 ^ 53" by simp
  have "foldl jsAdd (Num 0) (map (\<lambda>i. Num (of_int (ts ! i - ts ! (i - 1)))) [1 ..< Suc (Suc k)])
          = jsAdd (Num (of_int (ts ! k - ts ! 0))) (Num (of_int (ts ! Suc k - ts ! k)))"
    using Suc.IH [OF k] by simp
  also have "\<dots> = Num (of_int ((ts ! k - ts ! 0) + (ts ! Suc k - ts ! k)))"
    using b by (rule jsAdd_int_exact)
  finally show ?case by simp
qed

lemma foldl_jsAdd_differences:
  assumes "\<forall>i < length ts. \<bar>ts ! i\<bar> \<le> (2 :: int) ^ 52" "ts \<noteq> []"
  shows "foldl jsAdd (Num 0) (map (\<lambda>d. Num (of_int d)) (consecutiveDifferences ts))
           = Num (of_int (sum_list (consecutiveDifferences ts)))"
proof -
  from assms(2) have k: "length ts - 1 < length ts" and n: "length ts = Suc (length ts - 1)"
    by simp_all
  have "foldl jsAdd (Num 0) (map (\<lambda>d. Num (of_int d)) (consecutiveDifferences ts))
          = foldl jsAdd (Num 0)
              (map (\<lambda>i. Num (of_int (ts ! i - ts ! (i - 1)))) [1 ..< Suc (length ts - 1)])"
    using n by (simp add: consecutiveDifferences_def o_def)
  also have "\<dots> = Num (of_int (ts ! (length ts - 1) - ts ! 0))"
    using assms(1) k by (rule foldl_jsAdd_telescope)
  also have "ts ! (length ts - 1) - ts ! 0
               = sum_list (map (\<lambda>i. ts ! i - ts ! (i - 1)) [1 ..< Suc (length ts - 1)])"
    by (simp only: sum_list_telescope)
  also have "\<dots> = sum_list (consecutiveDifferences ts)"
    using n by (simp add: consecutiveDifferences_def)
  finally show ?thesis .
qed

lemma MathMin_int:
  assumes "ds \<noteq> []"
  shows "foldl jsMin2 PosInf (map (\<lambda>d. Num (of_int d)) ds) = Num (of_int (Min (set ds)))"
proof -
  define xs where "xs = map (\<lambda>d. Num (of_int d :: rat)) ds"
  have "xs \<noteq> []" "NaN \<notin> set xs" using assms by (auto simp add: xs_def)
  from MathMin_least [OF this]
  have m: "foldl jsMin2 PosInf xs \<in> set xs"
    and le: "\<forall>d \<in> set xs. \<not> jsLess d (foldl jsMin2 PosInf xs)" by simp_all
  from m obtain d0 where d0: "d0 \<in> set ds" "foldl jsMin2 PosInf xs = Num (of_int d0)"
    by (auto simp add: xs_def)
  have "d0 \<le> d" if "d \<in> set ds" for d
  proof -
    from that have "Num (of_int d) \<in> set xs" by (simp add: xs_def)
    with le have "\<not> jsLess (Num (of_int d)) (foldl jsMin2 PosInf xs)" by blast
    then have "\<not> jsLess (Num (of_int d)) (Num (of_int d0))" by (simp add: d0(2))
    then show ?thesis by simp
  qed
  with d0(1) have "Min (set ds) = d0" by (intro Min_eqI) simp_all
  with d0(2) show ?thesis by (simp add: xs_def)
qed

lemma MathMax_int:
  assumes "ds \<noteq> []"
  shows "foldl jsMax2 NegInf (map (\<lambda>d. Num (of_int d)) ds) = Num (of_int (Max (set ds)))"
proof -
  define xs where "xs = map (\<lambda>d. Num (of_int d :: rat)) ds"
  have "xs \<noteq> []" "NaN \<notin> set xs" using assms by (auto simp add: xs_def)
  from MathMax_greatest [OF this]
  have m: "foldl jsMax2 NegInf xs \<in> set xs"
    and le: "\<forall>d \<in> set xs. \<not> jsLess (foldl jsMax2 NegInf xs) d" by simp_all
  from m obtain d0 where d0: "d0 \<in> set ds" "foldl jsMax2 NegInf xs = Num (of_int d0)"
    by (auto simp add: xs_def)
  have "d \<le> d0" if "d \<in> set ds" for d
  proof -
    from that have "Num (of_int d) \<in> set xs" by (simp add: xs_def)
    with le have "\<not> jsLess (foldl jsMax2 NegInf xs) (Num (of_int d))" by blast
    then have "\<not> jsLess (Num (of_int d0)) (Num (of_int d))" by (simp add: d0(2))
    then show ?thesis by simp
  qed
  with d0(1) have "Max (set ds) = d0" by (intro Max_eqI) simp_all
  with d0(2) show ?thesis by (simp add: xs_def)
qed

lemma computeBlockTimeStats_exact:
  assumes "2 \<le> length blocks" "length blocks - 1 \<le> maxArguments" "length blocks \<le> 2 ^ 53"
    and "\<forall>b \<in> set blocks. parseInt (blk_timestamp b) = Num (of_int (t b)) \<and> \<bar>t b\<bar> \<le> 2 ^ 52"
  shows "computeBlockTimeStats maxArguments blocks =
     (let ds = consecutiveDifferences (map t (sort_key blk_number blocks)) in
      Inr \<lparr> averageBlockTimeSeconds = roundDouble (of_int (sum_list ds) / of_nat (length ds)),
            minBlockTimeSeconds = Num (of_int (Min (set ds))),
            maxBlockTimeSeconds = Num (of_int (Max (set ds))),
            totalBlocks = length blocks \<rparr>)"
proof -
  define sorted where "sorted = sort_key blk_number blocks"
  define ts where "ts = map t sorted"
  define ds where "ds = consecutiveDifferences ts"
  have set: "set sorted = set blocks" and len: "length sorted = length blocks"
    by (simp_all add: sorted_def)
  have p: "\<forall>b \<in> set sorted. parseInt (blk_timestamp b) = Num (of_int (t b)) \<and> \<bar>t b\<bar> \<le> 2 ^ 52"
    using assms(4) by (simp add: set)
  have deltas: "timestampDeltas sorted = map (\<lambda>d. Num (of_int d)) ds"
    using p unfolding ds_def ts_def by (rule timestampDeltas_exact)
  have lds: "length ds = length blocks - 1"
    by (simp add: ds_def ts_def consecutiveDifferences_def len)
  with assms(1) have ne: "ds \<noteq> []" and pos: "0 < length ds" by auto
  have tsne: "ts \<noteq> []" using assms(1) len by (auto simp add: ts_def)
  have bound: "\<forall>i < length ts. \<bar>ts ! i\<bar> \<le> 2 ^ 52"
    using p by (simp add: ts_def)
  have sum: "foldl jsAdd (Num 0) (map (\<lambda>d. Num (of_int d)) ds) = Num (of_int (sum_list ds))"
    unfolding ds_def using bound tsne by (rule foldl_jsAdd_differences)
  have "int (length ds) \<le> 2 ^ 53" using lds assms(3) by simp
  then have n: "Number (int (length ds)) = Num (of_nat (length ds))"
    using Number_exact [of "int (length ds)"] by simp
  have avg: "jsDiv (Num (of_int (sum_list ds))) (Num (of_nat (length ds)))
               = roundDouble (of_int (sum_list ds) / of_nat (length ds))"
    using pos by simp
  show ?thesis
    using computeBlockTimeStats_sorted [OF assms(1,2)]
    by (simp add: Let_def sorted_def [symmetric] deltas sum n avg MathMin_int [OF ne]
          MathMax_int [OF ne] ts_def [symmetric] ds_def [symmetric] ne)
qed

text \<open>
  C5. Fewer than two blocks give zeros with the length of the input. Two or more blocks,
  their differences being no more than the engine takes as arguments of one call, are
  sorted by number with a stable sort, and the result holds the length of the input and,
  of the differences of consecutive timestamps of the sorted blocks (negative or zero
  ones as they are), the sum from left to right in double arithmetic divided by their
  number, the least and the greatest, all three NaN when a timestamp is not a number.
  For whole timestamps of at most 52 bits the differences and their sum are exact: the
  average is the double nearest to the arithmetic mean, and the minimum and the maximum
  are those of the differences. The result is the same for two orders of the same blocks
  when their numbers are pairwise distinct. The sorted blocks are the input rearranged,
  ascending by number, those of one number in the order of the input.
\<close>

theorem computeBlockTimeStats_deltas:
  "(length few < 2 \<longrightarrow>
      computeBlockTimeStats maxArguments few
        = Inr \<lparr> averageBlockTimeSeconds = Num 0, minBlockTimeSeconds = Num 0,
                maxBlockTimeSeconds = Num 0, totalBlocks = length few \<rparr>)
   \<and> (2 \<le> length blocks \<and> length blocks - 1 \<le> maxArguments \<longrightarrow>
        (let ds = timestampDeltas (sort_key blk_number blocks) in
         \<exists>r. computeBlockTimeStats maxArguments blocks = Inr r
           \<and> totalBlocks r = length blocks
           \<and> averageBlockTimeSeconds r
               = jsDiv (foldl jsAdd (Num 0) ds) (Number (int (length ds)))
           \<and> (if NaN \<in> set ds
               then minBlockTimeSeconds r = NaN \<and> maxBlockTimeSeconds r = NaN
               else minBlockTimeSeconds r \<in> set ds \<and> maxBlockTimeSeconds r \<in> set ds
                    \<and> (\<forall>d \<in> set ds. \<not> jsLess d (minBlockTimeSeconds r)
                                       \<and> \<not> jsLess (maxBlockTimeSeconds r) d))))
   \<and> (2 \<le> length blocks \<and> length blocks - 1 \<le> maxArguments \<and> length blocks \<le> 2 ^ 53
        \<and> (\<forall>b \<in> set blocks. parseInt (blk_timestamp b) = Num (of_int (t b))
                               \<and> \<bar>t b\<bar> \<le> 2 ^ 52) \<longrightarrow>
        (let ds = consecutiveDifferences (map t (sort_key blk_number blocks)) in
         computeBlockTimeStats maxArguments blocks
           = Inr \<lparr> averageBlockTimeSeconds
                     = roundDouble (of_int (sum_list ds) / of_nat (length ds)),
                   minBlockTimeSeconds = Num (of_int (Min (set ds))),
                   maxBlockTimeSeconds = Num (of_int (Max (set ds))),
                   totalBlocks = length blocks \<rparr>))
   \<and> (mset blocks' = mset blocks \<and> distinct (map blk_number blocks) \<longrightarrow>
        computeBlockTimeStats maxArguments blocks' = computeBlockTimeStats maxArguments blocks)
   \<and> (let sortedBlocks = sort_key blk_number blocks in
        sorted (map blk_number sortedBlocks) \<and> mset sortedBlocks = mset blocks
        \<and> (\<forall>n. filter (\<lambda>b. blk_number b = n) sortedBlocks
                  = filter (\<lambda>b. blk_number b = n) blocks))"
proof (intro conjI impI)
  show "let sortedBlocks = sort_key blk_number blocks in
        sorted (map blk_number sortedBlocks) \<and> mset sortedBlocks = mset blocks
        \<and> (\<forall>n. filter (\<lambda>b. blk_number b = n) sortedBlocks
                  = filter (\<lambda>b. blk_number b = n) blocks)"
    by (simp add: Let_def sort_key_stable)
next
  assume "length few < 2"
  then show "computeBlockTimeStats maxArguments few
        = Inr \<lparr> averageBlockTimeSeconds = Num 0, minBlockTimeSeconds = Num 0,
                maxBlockTimeSeconds = Num 0, totalBlocks = length few \<rparr>"
    by (simp add: computeBlockTimeStats_def)
next
  assume a: "2 \<le> length blocks \<and> length blocks - 1 \<le> maxArguments"
  define ds where "ds = timestampDeltas (sort_key blk_number blocks)"
  define r where "r = \<lparr> averageBlockTimeSeconds =
                           jsDiv (foldl jsAdd (Num 0) ds) (Number (int (length ds))),
                        minBlockTimeSeconds = foldl jsMin2 PosInf ds,
                        maxBlockTimeSeconds = foldl jsMax2 NegInf ds,
                        totalBlocks = length blocks \<rparr>"
  have res: "computeBlockTimeStats maxArguments blocks = Inr r"
    using a by (simp add: computeBlockTimeStats_sorted Let_def ds_def r_def)
  have "length ds = length blocks - 1" by (simp add: ds_def length_timestampDeltas)
  with a have ne: "ds \<noteq> []" by auto
  have ext: "if NaN \<in> set ds
             then minBlockTimeSeconds r = NaN \<and> maxBlockTimeSeconds r = NaN
             else minBlockTimeSeconds r \<in> set ds \<and> maxBlockTimeSeconds r \<in> set ds
                  \<and> (\<forall>d \<in> set ds. \<not> jsLess d (minBlockTimeSeconds r)
                                     \<and> \<not> jsLess (maxBlockTimeSeconds r) d)"
  proof (cases "NaN \<in> set ds")
    case True
    then show ?thesis by (simp add: r_def foldl_jsMin2_NaN foldl_jsMax2_NaN)
  next
    case False
    with MathMin_least [OF ne] MathMax_greatest [OF ne] show ?thesis
      by (simp add: r_def)
  qed
  have "computeBlockTimeStats maxArguments blocks = Inr r
         \<and> totalBlocks r = length blocks
         \<and> averageBlockTimeSeconds r
             = jsDiv (foldl jsAdd (Num 0) ds) (Number (int (length ds)))
         \<and> (if NaN \<in> set ds
             then minBlockTimeSeconds r = NaN \<and> maxBlockTimeSeconds r = NaN
             else minBlockTimeSeconds r \<in> set ds \<and> maxBlockTimeSeconds r \<in> set ds
                  \<and> (\<forall>d \<in> set ds. \<not> jsLess d (minBlockTimeSeconds r)
                                     \<and> \<not> jsLess (maxBlockTimeSeconds r) d))"
    using res ext by (simp add: r_def)
  then show "let ds = timestampDeltas (sort_key blk_number blocks) in
         \<exists>r. computeBlockTimeStats maxArguments blocks = Inr r
           \<and> totalBlocks r = length blocks
           \<and> averageBlockTimeSeconds r
               = jsDiv (foldl jsAdd (Num 0) ds) (Number (int (length ds)))
           \<and> (if NaN \<in> set ds
               then minBlockTimeSeconds r = NaN \<and> maxBlockTimeSeconds r = NaN
               else minBlockTimeSeconds r \<in> set ds \<and> maxBlockTimeSeconds r \<in> set ds
                    \<and> (\<forall>d \<in> set ds. \<not> jsLess d (minBlockTimeSeconds r)
                                       \<and> \<not> jsLess (maxBlockTimeSeconds r) d))"
    unfolding Let_def ds_def [symmetric] by (rule exI)
next
  assume "2 \<le> length blocks \<and> length blocks - 1 \<le> maxArguments \<and> length blocks \<le> 2 ^ 53
        \<and> (\<forall>b \<in> set blocks. parseInt (blk_timestamp b) = Num (of_int (t b))
                               \<and> \<bar>t b\<bar> \<le> 2 ^ 52)"
  then have "2 \<le> length blocks" "length blocks - 1 \<le> maxArguments" "length blocks \<le> 2 ^ 53"
    "\<forall>b \<in> set blocks. parseInt (blk_timestamp b) = Num (of_int (t b)) \<and> \<bar>t b\<bar> \<le> 2 ^ 52"
    by blast+
  from computeBlockTimeStats_exact [OF this]
  show "let ds = consecutiveDifferences (map t (sort_key blk_number blocks)) in
         computeBlockTimeStats maxArguments blocks
           = Inr \<lparr> averageBlockTimeSeconds
                     = roundDouble (of_int (sum_list ds) / of_nat (length ds)),
                   minBlockTimeSeconds = Num (of_int (Min (set ds))),
                   maxBlockTimeSeconds = Num (of_int (Max (set ds))),
                   totalBlocks = length blocks \<rparr>"
    by (simp add: Let_def)
next
  assume "mset blocks' = mset blocks \<and> distinct (map blk_number blocks)"
  then show "computeBlockTimeStats maxArguments blocks'
               = computeBlockTimeStats maxArguments blocks"
    by (intro computeBlockTimeStats_order) simp_all
qed

lemma parseInt_samples:
  "parseInt ''1000'' = Num 1000" "parseInt ''1010'' = Num 1010"
  "parseInt ''1025'' = Num 1025" "parseInt ''1040'' = Num 1040"
  using Number_exact [of 1000] Number_exact [of 1010] Number_exact [of 1025]
    Number_exact [of 1040]
  by (simp_all add: parseInt_def parse_defs)

lemma shuffled_sorted: "sort_key blk_number shuffledBlocks = orderedBlocks"
  by (simp add: shuffledBlocks_def orderedBlocks_def blk_def)

lemma ordered_differences:
  "consecutiveDifferences (map sampleSeconds orderedBlocks) = [10, 15, 15]"
  by (simp add: consecutiveDifferences_def orderedBlocks_def blk_def sampleSeconds_def
        upt_conv_Cons)

lemma sample_timestamps:
  "list_all (\<lambda>b. parseInt (blk_timestamp b) = Num (of_int (sampleSeconds b))
                 \<and> \<bar>sampleSeconds b\<bar> \<le> 2 ^ 52) shuffledBlocks"
  by (simp add: shuffledBlocks_def blk_def sampleSeconds_def parseInt_samples)

lemma double_40_3: "roundDouble (40 / 3) = Num (7505999378950827 / 562949953421312)"
  by (subst roundDouble_finite [where e = 3])
     (simp_all add: pow2_def roundHalfEven_def Let_def)

theorem computeBlockTimeStats_deltas_witness:
  "length [blk 100 ''1000''] < 2
   \<and> computeBlockTimeStats 65535 [blk 100 ''1000'']
       = Inr \<lparr> averageBlockTimeSeconds = Num 0, minBlockTimeSeconds = Num 0,
               maxBlockTimeSeconds = Num 0, totalBlocks = 1 \<rparr>
   \<and> 2 \<le> length shuffledBlocks \<and> length shuffledBlocks - 1 \<le> 65535
   \<and> length shuffledBlocks \<le> 2 ^ 53
   \<and> list_all (\<lambda>b. parseInt (blk_timestamp b) = Num (of_int (sampleSeconds b))
                   \<and> \<bar>sampleSeconds b\<bar> \<le> 2 ^ 52) shuffledBlocks
   \<and> computeBlockTimeStats 65535 shuffledBlocks
       = Inr \<lparr> averageBlockTimeSeconds = Num (7505999378950827 / 562949953421312),
               minBlockTimeSeconds = Num 10, maxBlockTimeSeconds = Num 15, totalBlocks = 4 \<rparr>
   \<and> mset orderedBlocks = mset shuffledBlocks
   \<and> distinct (map blk_number shuffledBlocks)
   \<and> computeBlockTimeStats 65535 orderedBlocks = computeBlockTimeStats 65535 shuffledBlocks"
proof -
  have len: "length shuffledBlocks = 4" by (simp add: shuffledBlocks_def)
  have perm: "mset orderedBlocks = mset shuffledBlocks"
    by (simp add: shuffledBlocks_def orderedBlocks_def)
  have dist: "distinct (map blk_number shuffledBlocks)"
    by (simp add: shuffledBlocks_def blk_def)
  have ts: "\<forall>b \<in> set shuffledBlocks. parseInt (blk_timestamp b) = Num (of_int (sampleSeconds b))
                               \<and> \<bar>sampleSeconds b\<bar> \<le> 2 ^ 52"
    using sample_timestamps by (simp only: list_all_iff)
  from computeBlockTimeStats_deltas
         [of "[blk 100 ''1000'']" 65535 shuffledBlocks sampleSeconds orderedBlocks]
  show ?thesis
    using len perm dist ts sample_timestamps
    by (simp add: shuffled_sorted ordered_differences double_40_3 Let_def)
qed

lemma blkAB_deltas:
  "timestampDeltas [blkA, blkB] = [Num 10]" "timestampDeltas [blkB, blkA] = [Num (- 10)]"
  using Number_exact [of 10] Number_exact [of "- 10"]
  by (simp_all add: timestampDeltas_def blkA_def blkB_def parseInt_samples jsSub_def Number_def)

theorem computeBlockTimeStats_order_counterexample:
  "mset [blkB, blkA] = mset [blkA, blkB]
   \<and> computeBlockTimeStats 65535 [blkA, blkB]
       = Inr \<lparr> averageBlockTimeSeconds = Num 10, minBlockTimeSeconds = Num 10,
               maxBlockTimeSeconds = Num 10, totalBlocks = 2 \<rparr>
   \<and> computeBlockTimeStats 65535 [blkB, blkA]
       = Inr \<lparr> averageBlockTimeSeconds = Num (- 10), minBlockTimeSeconds = Num (- 10),
               maxBlockTimeSeconds = Num (- 10), totalBlocks = 2 \<rparr>"
proof -
  have "sort_key blk_number [blkA, blkB] = [blkA, blkB]"
    "sort_key blk_number [blkB, blkA] = [blkB, blkA]"
    by (simp_all add: blkA_def blkB_def)
  moreover have "Number 1 = Num 1" using Number_exact [of 1] by simp
  moreover have "roundDouble 10 = Num 10" "roundDouble (- 10) = Num (- 10)"
    using Number_exact [of 10] Number_exact [of "- 10"] by (simp_all add: Number_def)
  ultimately show ?thesis
    by (simp add: computeBlockTimeStats_sorted blkAB_deltas Let_def jsMin2_def jsMax2_def)
qed

text \<open>More differences than the engine takes as arguments: the spread call throws.\<close>

lemma computeBlockTimeStats_too_many:
  "computeBlockTimeStats 2 orderedBlocks = Inl RangeError"
  by (rule computeBlockTimeStats_throws) (simp_all add: orderedBlocks_def)

subsection \<open>Retry with backoff: the attempts\<close>

declare retryLoop.simps [simp del]

lemma backoffs_0: "backoffs d a 0 = []"
  by (simp add: backoffs_def)

lemma backoffs_Suc: "backoffs d a (Suc k) = d * 2 ^ a # backoffs d (Suc a) k"
  by (simp add: backoffs_def upt_conv_Cons map_upt_Suc flip: map_Suc_upt)

lemma length_attempts: "length (attempts fn s n) = n"
  by (induction n arbitrary: s) simp_all

lemma retryLoop_attempts:
  "0 \<le> a \<Longrightarrow> n = nat (m - a) \<Longrightarrow>
     retryLoop fn m d a le w = loopResult d (nat a) n le w (attempts fn (ext w) n)"
proof (induction n arbitrary: a le w)
  case 0
  then have "\<not> a < m" by simp
  then show ?case by (subst retryLoop.simps) (simp add: loopResult_def)
next
  case (Suc n)
  from Suc.prems have lt: "a < m" and n: "n = nat (m - (a + 1))" and a1: "0 \<le> a + 1"
    by simp_all
  obtain r s where f: "fn (ext w) = (r, s)" by (cases "fn (ext w)")
  show ?case
  proof (cases r)
    case (Inr v)
    with lt f show ?thesis
      by (subst retryLoop.simps) (simp add: loopResult_def failed_def backoffs_0)
  next
    case (Inl e)
    define w2 where "w2 =
      (if a < m - 1
       then w\<lparr> ext := s, invocations := invocations w + 1, waits := waits w @ [d * 2 ^ nat a] \<rparr>
       else w\<lparr> ext := s, invocations := invocations w + 1 \<rparr>)"
    have step: "retryLoop fn m d a le w = retryLoop fn m d (a + 1) (Some (asError e)) w2"
      using lt f Inl by (subst retryLoop.simps) (simp add: w2_def Let_def)
    have ext2: "ext w2 = s" by (simp add: w2_def)
    have inv2: "invocations w2 = invocations w + 1" by (simp add: w2_def)
    have nata: "nat (a + 1) = Suc (nat a)" using Suc.prems(1) by simp
    have IH: "retryLoop fn m d (a + 1) (Some (asError e)) w2
        = loopResult d (Suc (nat a)) n (Some (asError e)) w2 (attempts fn s n)"
      using Suc.IH [OF a1 n, of "Some (asError e)" w2] by (simp add: ext2 nata)
    have outs: "attempts fn (ext w) (Suc n) = fn (ext w) # attempts fn s n"
      using f by simp
    have proj: "projl (fst (fn (ext w))) = e" "snd (fn (ext w)) = s"
      using f Inl by simp_all
    have fl: "failed (fn (ext w))" using f Inl by (simp add: failed_def)
    show ?thesis
    proof (cases "n = 0")
      case True
      then have "\<not> a < m - 1" using n by simp
      then have w2: "w2 = w\<lparr> ext := s, invocations := invocations w + 1 \<rparr>"
        by (simp add: w2_def)
      show ?thesis unfolding step IH outs using True fl
        by (simp add: loopResult_def w2 backoffs_0 proj)
    next
      case False
      then have "a < m - 1" using n by simp
      then have w2: "w2 = w\<lparr> ext := s, invocations := invocations w + 1,
          waits := waits w @ [d * 2 ^ nat a] \<rparr>"
        by (simp add: w2_def)
      have ne: "attempts fn s n \<noteq> []" using False length_attempts [of fn s n] by auto
      obtain n' where n': "n = Suc n'" using False by (cases n) auto
      show ?thesis unfolding step IH outs using False fl ne
        by (simp add: loopResult_def w2 Let_def backoffs_Suc n' proj)
    qed
  qed
qed

lemma retryWithBackoff_attempts:
  "retryWithBackoff fn m d w = loopResult d 0 (nat m) None w (attempts fn (ext w) (nat m))"
  using retryLoop_attempts [of 0 "nat m" m fn d None w] by (simp add: retryWithBackoff_def)

text \<open>
  C2. With \<open>maxRetries\<close> at least 1, let \<open>k\<close> be the number of attempts that fail before
  the first success among \<open>maxRetries\<close> invocations in a row. The operation is invoked
  \<open>k + 1\<close> times if one succeeds and \<open>maxRetries\<close> times if none does; the result is that
  of the first success, or else the failure of the last attempt, as an \<open>Error\<close> (a thrown
  value that is not one is wrapped in a new \<open>Error\<close> of its string); the delays waited for
  are \<open>d * 2 ^ j\<close> after each failed attempt \<open>j\<close> that is not the last one allowed.
\<close>

theorem retryWithBackoff_outcome:
  "1 \<le> m \<Longrightarrow>
     (let outs = attempts fn (ext w) (nat m);
          k = length (takeWhile failed outs);
          r = fst (retryWithBackoff fn m d w);
          w' = snd (retryWithBackoff fn m d w)
      in invocations w' = invocations w + min (k + 1) (nat m)
         \<and> invocations w' \<le> invocations w + nat m
         \<and> waits w' = waits w @ map (\<lambda>j. d * 2 ^ j) [0 ..< min k (nat m - 1)]
         \<and> (k < nat m \<longrightarrow>
              r = fst (outs ! k) \<and> \<not> failed (outs ! k) \<and> ext w' = snd (outs ! k))
         \<and> (k = nat m \<longrightarrow>
              r = Inl (asError (projl (fst (last outs)))) \<and> failed (last outs)
              \<and> ext w' = snd (last outs)))"
proof -
  assume m: "1 \<le> m"
  define outs where "outs = attempts fn (ext w) (nat m)"
  define k where "k = length (takeWhile failed outs)"
  have len: "length outs = nat m" by (simp add: outs_def length_attempts)
  have kle: "k \<le> nat m" unfolding k_def using length_takeWhile_le [of failed outs] len by simp
  have res: "retryWithBackoff fn m d w = loopResult d 0 (nat m) None w outs"
    by (simp add: retryWithBackoff_attempts outs_def)
  have pos: "0 < nat m" using m by simp
  have succ: "\<not> failed (outs ! k)" if "k < nat m"
    using that len unfolding k_def by (simp add: nth_length_takeWhile)
  have fail: "failed (last outs)" if "k = nat m"
  proof -
    from that len have "takeWhile failed outs = outs"
      unfolding k_def by (metis length_takeWhile_le takeWhile_eq_take take_all)
    then have "\<forall>x \<in> set outs. failed x" by simp
    moreover have "outs \<noteq> []" using len pos by auto
    ultimately show ?thesis by simp
  qed
  show ?thesis
    unfolding Let_def outs_def [symmetric] k_def [symmetric] res
    using pos kle succ fail
    by (auto simp add: loopResult_def Let_def k_def [symmetric] backoffs_def min_def)
qed

lemma attempts_flaky:
  "attempts flaky 0 3
     = [(Inl (Error ''Temporary error''), 1), (Inl (Error ''Temporary error''), 2),
        (Inr ''success'', 3)]"
  by (simp add: numeral_3_eq_3 flaky_def)

lemma attempts_alwaysFails:
  "attempts alwaysFails 0 3
     = [(Inl (Error []), 1), (Inl (Error ''x''), 2), (Inl (Error ''xx''), 3)]"
  by (simp add: numeral_3_eq_3 alwaysFails_def)

theorem retryWithBackoff_outcome_witness:
  "(1 :: int) \<le> 3
   \<and> length (takeWhile failed (attempts flaky 0 3)) = 2
   \<and> retryWithBackoff flaky 3 1000 world1
       = (Inr ''success'', \<lparr> ext = 3, invocations = 3, waits = [1000, 2000] \<rparr>)
   \<and> length (takeWhile failed (attempts alwaysFails 0 3)) = 3
   \<and> retryWithBackoff alwaysFails 3 1000 world1
       = (Inl (Error ''xx''), \<lparr> ext = 3, invocations = 3, waits = [1000, 2000] \<rparr>)"
proof -
  have w: "ext world1 = 0" "invocations world1 = 0" "waits world1 = []"
    by (simp_all add: world1_def)
  have upt: "[0 ..< 2] = [0, Suc 0]" by (simp add: upt_conv_Cons)
  from retryWithBackoff_outcome [of 3 flaky world1 1000]
       retryWithBackoff_outcome [of 3 alwaysFails world1 1000]
  show ?thesis
    by (simp add: w attempts_flaky attempts_alwaysFails failed_def asError_def Let_def upt
          prod_eq_iff World.equality)
qed

theorem retryWithBackoff_wraps_counterexample:
  "fst (rejectBoom ()) = Inl (NonError ''boom'')
   \<and> retryWithBackoff rejectBoom 1 1000 world0
       = (Inl (Error ''boom''), \<lparr> ext = (), invocations = 1, waits = [] \<rparr>)"
  by (simp add: retryWithBackoff_def retryLoop.simps rejectBoom_def world0_def asError_def)

subsection \<open>The blocks whose transactions are fetched\<close>

lemma slice0_first_20: "slice0 blocks (min 20 (int (length blocks))) = take 20 blocks"
  by (simp add: slice0_def Let_def min_def)

lemma fetchLoop_cong:
  "(\<forall>b \<in> set bs. gt (blk_number b) = gt' (blk_number b)) \<Longrightarrow>
     fetchLoop maxArguments gt bs st = fetchLoop maxArguments gt' bs st"
  by (induction bs arbitrary: st) (simp_all split: prod.splits sum.splits)

lemma fetchTransactions_take:
  "fetchTransactions maxArguments gt blocks w
     = fetchLoop maxArguments gt (take 20 blocks) \<lparr> transactions = [], warnings = [], world = w \<rparr>"
  by (simp add: fetchTransactions_def slice0_first_20)

text \<open>
  C9. The loop that fetches transactions runs over the first \<open>min 20 n\<close> of the \<open>n\<close>
  blocks returned and no others: what it collects, and the whole run, is the same
  whatever the service would answer for the blocks after the first 20.
\<close>

theorem fetchTransactions_first_20_only:
  "fetchTransactions maxArguments gt blocks w
     = fetchLoop maxArguments gt (take (min 20 (length blocks)) blocks)
         \<lparr> transactions = [], warnings = [], world = w \<rparr>
   \<and> fetchTransactions maxArguments gt blocks w
       = fetchTransactions maxArguments gt (take 20 blocks) w
   \<and> ((\<forall>b \<in> set (take 20 blocks). gt (blk_number b) = gt' (blk_number b)) \<longrightarrow>
        fetchTransactions maxArguments gt blocks w = fetchTransactions maxArguments gt' blocks w)
   \<and> ((\<forall>bs w1. retryWithBackoffDefault getLatestBlocks w0 = (Inr bs, w1) \<longrightarrow>
          (\<forall>b \<in> set (take 20 bs). gt (blk_number b) = gt' (blk_number b))) \<longrightarrow>
        main maxArguments getLatestBlocks gt w0 = main maxArguments getLatestBlocks gt' w0)"
proof (intro conjI impI)
  show "fetchTransactions maxArguments gt blocks w
     = fetchLoop maxArguments gt (take (min 20 (length blocks)) blocks)
         \<lparr> transactions = [], warnings = [], world = w \<rparr>"
    by (simp add: fetchTransactions_take min_def)
  show "fetchTransactions maxArguments gt blocks w
       = fetchTransactions maxArguments gt (take 20 blocks) w"
    by (simp add: fetchTransactions_take)
next
  assume "\<forall>b \<in> set (take 20 blocks). gt (blk_number b) = gt' (blk_number b)"
  then show "fetchTransactions maxArguments gt blocks w = fetchTransactions maxArguments gt' blocks w"
    by (simp add: fetchTransactions_take fetchLoop_cong)
next
  assume same: "\<forall>bs w1. retryWithBackoffDefault getLatestBlocks w0 = (Inr bs, w1) \<longrightarrow>
          (\<forall>b \<in> set (take 20 bs). gt (blk_number b) = gt' (blk_number b))"
  obtain r w1 where first: "retryWithBackoffDefault getLatestBlocks w0 = (r, w1)"
    by (cases "retryWithBackoffDefault getLatestBlocks w0")
  show "main maxArguments getLatestBlocks gt w0 = main maxArguments getLatestBlocks gt' w0"
  proof (cases r)
    case (Inl e)
    with first show ?thesis by (simp add: main_def)
  next
    case (Inr bs)
    with first same have "\<forall>b \<in> set (take 20 bs). gt (blk_number b) = gt' (blk_number b)"
      by simp
    then have "fetchTransactions maxArguments gt bs w1 = fetchTransactions maxArguments gt' bs w1"
      by (simp add: fetchTransactions_take fetchLoop_cong)
    with first Inr show ?thesis by (simp add: main_def)
  qed
qed

lemma take_manyBlocks: "take 20 manyBlocks = map (\<lambda>n. blk (int n) ''1000'') [1 ..< 21]"
  by (simp add: manyBlocks_def take_map)

lemma oneTx_same:
  "\<forall>b \<in> set (take 20 manyBlocks). oneTx (blk_number b) = oneTxUpTo20 (blk_number b)"
  by (auto simp add: take_manyBlocks blk_def oneTx_def oneTxUpTo20_def fun_eq_iff)

lemma listBlocks_result: "retryWithBackoffDefault listBlocks world0 = (Inr bs, w1) \<Longrightarrow> bs = manyBlocks"
  by (simp add: retryWithBackoffDefault_def retryWithBackoff_def retryLoop.simps listBlocks_def)

lemma retry_oneTx:
  "retryWithBackoffDefault (oneTx n) w = (Inr [tx3], w\<lparr> invocations := invocations w + 1 \<rparr>)"
  by (simp add: retryWithBackoffDefault_def retryWithBackoff_def retryLoop.simps oneTx_def)

lemma fetchLoop_oneTx:
  "fetchLoop 65535 oneTx bs st
     = st\<lparr> transactions := transactions st @ replicate (length bs) tx3,
          world := (world st)\<lparr> invocations := invocations (world st) + length bs \<rparr> \<rparr>"
proof (induction bs arbitrary: st)
  case Nil
  show ?case by simp
next
  case (Cons b bs)
  show ?case by (simp add: retry_oneTx Cons replicate_app_Cons_same)
qed

theorem fetchTransactions_first_20_only_witness:
  "length manyBlocks = 22
   \<and> length (take (min 20 (length manyBlocks)) manyBlocks) = 20
   \<and> oneTx 21 () \<noteq> oneTxUpTo20 21 ()
   \<and> fetchTransactions 65535 oneTx manyBlocks world0
       = fetchTransactions 65535 oneTxUpTo20 manyBlocks world0
   \<and> main 65535 listBlocks oneTx world0 = main 65535 listBlocks oneTxUpTo20 world0
   \<and> fetchTransactions 65535 oneTxUpTo20 manyBlocks world0
       = \<lparr> transactions = replicate 20 tx3, warnings = [],
           world = \<lparr> ext = (), invocations = 20, waits = [] \<rparr> \<rparr>"
proof -
  have run: "\<forall>bs w1. retryWithBackoffDefault listBlocks world0 = (Inr bs, w1) \<longrightarrow>
          (\<forall>b \<in> set (take 20 bs). oneTx (blk_number b) = oneTxUpTo20 (blk_number b))"
    using oneTx_same listBlocks_result by blast
  note only = fetchTransactions_first_20_only
                [of 65535 oneTx manyBlocks world0 oneTxUpTo20 listBlocks world0]
  from only oneTx_same
  have fetched: "fetchTransactions 65535 oneTx manyBlocks world0
      = fetchTransactions 65535 oneTxUpTo20 manyBlocks world0"
    by blast
  from only run
  have whole: "main 65535 listBlocks oneTx world0 = main 65535 listBlocks oneTxUpTo20 world0"
    by blast
  have len: "length manyBlocks = 22" by (simp add: manyBlocks_def)
  then have first: "length (take (min 20 (length manyBlocks)) manyBlocks) = 20" by simp
  have differ: "oneTx 21 () \<noteq> oneTxUpTo20 21 ()" by (simp add: oneTx_def oneTxUpTo20_def)
  have "fetchTransactions 65535 oneTx manyBlocks world0
       = \<lparr> transactions = replicate 20 tx3, warnings = [],
           world = \<lparr> ext = (), invocations = 20, waits = [] \<rparr> \<rparr>"
    using len by (simp add: fetchTransactions_take fetchLoop_oneTx world0_def)
  then have result: "fetchTransactions 65535 oneTxUpTo20 manyBlocks world0
       = \<lparr> transactions = replicate 20 tx3, warnings = [],
           world = \<lparr> ext = (), invocations = 20, waits = [] \<rparr> \<rparr>"
    by (simp only: fetched)
  show ?thesis by (intro conjI len first differ fetched whole result)
qed

end
